theory Spec2Isabelle
  imports Complex_Main "HOL-Library.AList"
begin

section \<open>NutriScan: the ingredient resolution pipeline of \<open>final1.py\<close>\<close>

text \<open>
  The development follows \<open>class FoodAnalyzer\<close> of \<open>src/Nutriscan/final1.py\<close>, the module
  that \<open>app.py\<close> imports. Modelling decisions:
  \<^item> A Python \<open>str\<close> is a \<open>string\<close> whose characters are ASCII code points. The character
    classes below (\<open>\s\<close>, \<open>\w\<close>, \<open>\d\<close>, \<open>str.lower\<close>) are the ASCII part of Python's
    Unicode classes; non-ASCII text occurs only in literals that the program emits and never
    inspects (the emoji of remarks and recommendations), written as their UTF-8 bytes.
  \<^item> A Python \<open>float\<close> is a rational number (\<open>rat\<close>) and arithmetic is exact. This is an
    idealisation: the code adds and divides doubles, so the digits of a score sum, of a
    mean and of a similarity can differ from the exact ones (for the scores 6.6, 7.3, 6.6,
    8.8 the code's \<open>final_score\<close> is 7.33 where exact arithmetic gives 7.32). No
    statement below asserts the digits of a mean: the statements about \<open>final_score\<close> are
    bounds.
  \<^item> The pandas frame \<open>self.df\<close> is the list of its rows, a row index is a position in
    that list, and the \<open>Nutrition_Score\<close> column is numeric.
  \<^item> A \<open>dict\<close> is an association list in insertion order, because two loops of
    \<open>find_best_match\<close> iterate over \<open>self.ingredient_map.items()\<close> and keep the first maximum.
  \<^item> \<open>difflib.SequenceMatcher\<close> is modelled from its documented contract, without the
    \<open>autojunk\<close> heuristic, which applies to a second string of 200 characters or more; the fitted
    \<open>TfidfVectorizer\<close> is a field of the analyzer, a function from a query to the row of cosine
    similarities (or to nothing when \<open>transform\<close> raises).
  \<^item> \<open>functools.lru_cache\<close> memoises a pure function and is not modelled.
\<close>

subsection \<open>Characters and strings\<close>

definition isspace :: "char \<Rightarrow> bool" where
  \<comment> \<open>\<open>str.isspace\<close> and the regex class \<open>\s\<close> on ASCII: TAB, LF, VT, FF, CR, FS, GS, RS, US, space\<close>
  "isspace c = (c \<in> set [CHR 0x09, CHR 0x0A, CHR 0x0B, CHR 0x0C, CHR 0x0D,
                           CHR 0x1C, CHR 0x1D, CHR 0x1E, CHR 0x1F, CHR 0x20])"

definition is_digit :: "char \<Rightarrow> bool" where
  \<comment> \<open>the regex class \<open>\d\<close> on ASCII\<close>
  "is_digit c = (c \<in> set ''0123456789'')"

definition is_lower_letter :: "char \<Rightarrow> bool" where
  "is_lower_letter c = (c \<in> set ''abcdefghijklmnopqrstuvwxyz'')"

definition is_upper_letter :: "char \<Rightarrow> bool" where
  "is_upper_letter c = (c \<in> set ''ABCDEFGHIJKLMNOPQRSTUVWXYZ'')"

definition is_letter :: "char \<Rightarrow> bool" where
  \<comment> \<open>\<open>[a-z]\<close> under \<open>re.IGNORECASE\<close>\<close>
  "is_letter c = (is_lower_letter c \<or> is_upper_letter c)"

definition is_alnum :: "char \<Rightarrow> bool" where
  \<comment> \<open>\<open>[a-z0-9]\<close> under \<open>re.IGNORECASE\<close>\<close>
  "is_alnum c = (is_letter c \<or> is_digit c)"

definition is_word :: "char \<Rightarrow> bool" where
  \<comment> \<open>the regex class \<open>\w\<close> on ASCII\<close>
  "is_word c = (is_alnum c \<or> c = CHR ''_'')"

definition lower_char :: "char \<Rightarrow> char" where
  "lower_char c =
     (case map_of (zip ''ABCDEFGHIJKLMNOPQRSTUVWXYZ'' ''abcdefghijklmnopqrstuvwxyz'') c of
        Some d \<Rightarrow> d
      | None \<Rightarrow> c)"

definition lower :: "string \<Rightarrow> string" where
  \<comment> \<open>\<open>str.lower\<close>\<close>
  "lower s = map lower_char s"

definition strip :: "string \<Rightarrow> string" where
  \<comment> \<open>\<open>str.strip()\<close>: whitespace removed at both ends\<close>
  "strip s = rev (dropWhile isspace (rev (dropWhile isspace s)))"

fun starts_with :: "string \<Rightarrow> string \<Rightarrow> bool" where
  \<comment> \<open>\<open>starts_with p s\<close>: the literal \<open>p\<close> is a prefix of \<open>s\<close>\<close>
  "starts_with [] s = True"
| "starts_with (p # ps) [] = False"
| "starts_with (p # ps) (c # cs) = (if p = c then starts_with ps cs else False)"

fun contains :: "string \<Rightarrow> string \<Rightarrow> bool" where
  \<comment> \<open>\<open>contains x s\<close> is Python's \<open>x in s\<close> on strings\<close>
  "contains x [] = (x = [])"
| "contains x (c # cs) = (if starts_with x (c # cs) then True else contains x cs)"

fun split_acc :: "char \<Rightarrow> string \<Rightarrow> string \<Rightarrow> string list" where
  "split_acc sep acc [] = [rev acc]"
| "split_acc sep acc (c # cs) =
     (if c = sep then rev acc # split_acc sep [] cs else split_acc sep (c # acc) cs)"

definition split_on :: "char \<Rightarrow> string \<Rightarrow> string list" where
  \<comment> \<open>\<open>s.split(sep)\<close> for a one-character separator: empty pieces are kept\<close>
  "split_on sep s = split_acc sep [] s"

fun words_acc :: "string \<Rightarrow> string \<Rightarrow> string list" where
  "words_acc acc [] = (if acc = [] then [] else [rev acc])"
| "words_acc acc (c # cs) =
     (if isspace c then (if acc = [] then words_acc [] cs else rev acc # words_acc [] cs)
      else words_acc (c # acc) cs)"

definition split_ws :: "string \<Rightarrow> string list" where
  \<comment> \<open>\<open>s.split()\<close>: the maximal runs of non-whitespace characters\<close>
  "split_ws s = words_acc [] s"

subsection \<open>Regular-expression substitution\<close>

text \<open>
  \<open>re.sub(pattern, repl, text)\<close> scans \<open>text\<close> from the left and replaces every
  non-overlapping match. None of the program's patterns matches the empty string, so a
  pattern is given by a matcher: at a position it returns the length of the match that the
  backtracking engine finds there, if any. The matcher is told the character before the
  position (\<open>None\<close> at the start of the text), which is what \<open>\b\<close> needs. A match of
  length \<open>n\<close> at \<open>c # cs\<close> is replaced by \<open>repl\<close> and the scan goes on behind it, at
  \<open>drop (n - 1) cs\<close>.
\<close>

type_synonym matcher = "char option \<Rightarrow> string \<Rightarrow> nat option"

fun re_sub :: "matcher \<Rightarrow> string \<Rightarrow> char option \<Rightarrow> string \<Rightarrow> string" where
  "re_sub m repl prev [] = []"
| "re_sub m repl prev (c # cs) =
     (case m prev (c # cs) of
        Some n \<Rightarrow> repl @ re_sub m repl (Some ((c # cs) ! (n - 1))) (drop (n - 1) cs)
      | None \<Rightarrow> c # re_sub m repl (Some c) cs)"

definition is_word_at :: "char option \<Rightarrow> bool" where
  \<comment> \<open>there is a character and it is a word character\<close>
  "is_word_at x = (case x of None \<Rightarrow> False | Some c \<Rightarrow> is_word c)"

definition next_char :: "string \<Rightarrow> char option" where
  "next_char s = (case s of [] \<Rightarrow> None | c # _ \<Rightarrow> Some c)"

definition word_boundary :: "char option \<Rightarrow> string \<Rightarrow> bool" where
  \<comment> \<open>\<open>\b\<close>: exactly one of the two neighbouring characters is a word character\<close>
  "word_boundary prev s = (is_word_at prev \<noteq> is_word_at (next_char s))"

definition next_in_colon_space :: "string \<Rightarrow> bool" where
  \<comment> \<open>the class \<open>[:\s]\<close> matches the next character\<close>
  "next_in_colon_space s = (case s of [] \<Rightarrow> False | c # _ \<Rightarrow> c = CHR '':'' \<or> isspace c)"

definition m_allergen :: matcher where
  \<comment> \<open>\<open>allergen\s+(advice|information)[:\s].*\<close> with \<open>re.DOTALL\<close>: the match runs to the end\<close>
  "m_allergen prev s =
     (if starts_with ''allergen'' s then
        (let r1 = drop 8 s; r2 = dropWhile isspace r1 in
         if r1 \<noteq> [] \<and> isspace (hd r1) \<and>
            ((starts_with ''advice'' r2 \<and> next_in_colon_space (drop 6 r2)) \<or>
             (starts_with ''information'' r2 \<and> next_in_colon_space (drop 11 r2)))
         then Some (length s) else None)
      else None)"

definition m_lit_rest :: "string \<Rightarrow> matcher" where
  \<comment> \<open>\<open>lit.*\<close> with \<open>re.DOTALL\<close>\<close>
  "m_lit_rest lit prev s = (if starts_with lit s then Some (length s) else None)"

definition m_lit_sep_rest :: "string \<Rightarrow> matcher" where
  \<comment> \<open>\<open>lit[:\s].*\<close> with \<open>re.DOTALL\<close>\<close>
  "m_lit_sep_rest lit prev s =
     (if starts_with lit s \<and> next_in_colon_space (drop (length lit) s)
      then Some (length s) else None)"

definition m_lit :: "string \<Rightarrow> matcher" where
  \<comment> \<open>a literal\<close>
  "m_lit lit prev s = (if starts_with lit s then Some (length lit) else None)"

definition m_words :: "string list \<Rightarrow> matcher" where
  \<comment> \<open>\<open>\b(w1|w2|...)\b\<close>: the first alternative that is followed by a word boundary\<close>
  "m_words alts prev s =
     map_option length
       (find (\<lambda>w. if starts_with w s
                  then word_boundary prev s \<and> word_boundary (Some (last w)) (drop (length w) s)
                  else False) alts)"

definition is_open_bracket :: "char \<Rightarrow> bool" where
  "is_open_bracket c = (c = CHR ''['' \<or> c = CHR ''('')"

definition is_close_bracket :: "char \<Rightarrow> bool" where
  "is_close_bracket c = (c = CHR '']'' \<or> c = CHR '')'')"

definition m_brackets :: matcher where
  \<comment> \<open>\<open>\s*[\[\(].*?[\]\)]\<close> without \<open>re.DOTALL\<close>: the lazy \<open>.*?\<close> stops at the first closing
      bracket and cannot cross a line feed\<close>
  "m_brackets prev s =
     (case dropWhile isspace s of
        [] \<Rightarrow> None
      | b # rest \<Rightarrow>
          if is_open_bracket b then
            (let inner = takeWhile (\<lambda>c. \<not> is_close_bracket c) rest in
             if length inner < length rest \<and> CHR 0x0A \<notin> set inner
             then Some (length (takeWhile isspace s) + 1 + length inner + 1) else None)
          else None)"

definition roles :: "string list" where
  "roles = [''thickener'', ''stabilizer'', ''emulsifier'', ''preservative'', ''colour'',
            ''flavor'', ''acidity regulator'', ''raising agent'', ''anticaking agent'',
            ''mineral'', ''vitamin'']"

definition m_as_role :: matcher where
  \<comment> \<open>\<open>\s+as\s+(thickener|...|vitamin)\<close>\<close>
  "m_as_role prev s =
     (let ws1 = takeWhile isspace s in
      if ws1 = [] then None
      else
        (let r1 = dropWhile isspace s in
         if starts_with ''as'' r1 then
           (let r2 = drop 2 r1; ws2 = takeWhile isspace r2; r3 = dropWhile isspace r2 in
            if ws2 = [] then None
            else map_option (\<lambda>role. length ws1 + 2 + length ws2 + length role)
                   (find (\<lambda>role. starts_with role r3) roles))
         else None))"

definition m_separator :: matcher where
  \<comment> \<open>\<open>[;|\n\t&]\<close>\<close>
  "m_separator prev s =
     (case s of
        [] \<Rightarrow> None
      | c # _ \<Rightarrow> if c \<in> set [CHR '';'', CHR ''|'', CHR 0x0A, CHR 0x09, CHR ''&''] then Some 1 else None)"

definition m_enumeration :: matcher where
  \<comment> \<open>\<open>\b\d+\.\s*\<close>\<close>
  "m_enumeration prev s =
     (let ds = takeWhile is_digit s in
      if ds = [] then None
      else
        (let r1 = dropWhile is_digit s in
         if starts_with ''.'' r1 then
           (if word_boundary prev s
            then Some (length ds + 1 + length (takeWhile isspace (drop 1 r1))) else None)
         else None))"

definition m_colon_after :: "string \<Rightarrow> string \<Rightarrow> nat option" where
  \<comment> \<open>\<open>w\s*:\<close> for a literal \<open>w\<close>\<close>
  "m_colon_after w s =
     (if starts_with w s then
        (let r = drop (length w) s in
         if starts_with '':'' (dropWhile isspace r)
         then Some (length w + length (takeWhile isspace r) + 1) else None)
      else None)"

definition header_words :: "string list" where
  \<comment> \<open>\<open>(ingredients?|contains?|noodles?|tastemaker|seasoning)\<close>, each optional \<open>s\<close> tried
      first (the \<open>?\<close> is greedy), then without it\<close>
  "header_words = [''ingredients'', ''ingredient'', ''contains'', ''contain'',
                   ''noodles'', ''noodle'', ''tastemaker'', ''seasoning'']"

definition m_header :: matcher where
  \<comment> \<open>\<open>(ingredients?|contains?|noodles?|tastemaker|seasoning)\s*:\<close>\<close>
  "m_header prev s =
     (case find (\<lambda>w. m_colon_after w s \<noteq> None) header_words of
        None \<Rightarrow> None
      | Some w \<Rightarrow> m_colon_after w s)"

subsection \<open>The static tables\<close>

definition E_NUMBER_MAP :: "(string \<times> string) list" where
  "E_NUMBER_MAP =
     [(''e330'', ''citric acid''), (''e500'', ''sodium carbonate''),
      (''e501'', ''potassium carbonate''), (''e508'', ''potassium chloride''),
      (''e170'', ''calcium carbonate''), (''e412'', ''guar gum''),
      (''e452'', ''sodium phosphate''), (''e100'', ''curcumin''),
      (''e627'', ''disodium guanylate''), (''e631'', ''disodium inosinate''),
      (''e551'', ''silicon dioxide''), (''e621'', ''monosodium glutamate''),
      (''e322'', ''lecithin''), (''e471'', ''mono and diglycerides''),
      (''e407'', ''carrageenan''), (''e410'', ''locust bean gum''),
      (''e415'', ''xanthan gum''), (''e150'', ''caramel''),
      (''e202'', ''potassium sorbate''), (''e211'', ''sodium benzoate''),
      (''e223'', ''sodium metabisulphite''), (''e300'', ''ascorbic acid''),
      (''e503'', ''ammonium carbonate'')]"

definition INDIAN_INGREDIENT_MAP :: "(string \<times> string) list" where
  "INDIAN_INGREDIENT_MAP =
     [(''maida'', ''refined wheat flour''), (''atta'', ''whole wheat flour''),
      (''besan'', ''gram flour''), (''hing'', ''asafoetida''), (''jeera'', ''cumin''),
      (''haldi'', ''turmeric''), (''dhaniya'', ''coriander''), (''elaichi'', ''cardamom''),
      (''dalchini'', ''cinnamon''), (''kalonji'', ''nigella seeds''),
      (''methi'', ''fenugreek''), (''ajwain'', ''carom seeds''), (''til'', ''sesame''),
      (''kaju'', ''cashew''), (''badam'', ''almond''), (''pista'', ''pistachio''),
      (''khoya'', ''milk solids''), (''paneer'', ''cottage cheese'')]"

subsection \<open>Text cleaning and tokenization\<close>

definition replace_codes :: "(string \<times> string) list \<Rightarrow> string \<Rightarrow> string" where
  \<comment> \<open>\<open>for code, name in table.items(): text = re.sub(rf'\b{code}\b', name, text)\<close>\<close>
  "replace_codes table text =
     foldl (\<lambda>t (code, name). re_sub (m_words [code]) name None t) text table"

definition clean_ingredient_text :: "string \<Rightarrow> string" where
  "clean_ingredient_text raw_text =
     (let text = lower raw_text;
          text = re_sub m_allergen [] None text;
          text = re_sub (m_lit_rest ''may contain traces of'') [] None text;
          text = re_sub (m_lit_sep_rest ''storage instructions'') [] None text;
          text = re_sub (m_lit_sep_rest ''best before'') [] None text;
          text = re_sub (m_lit ''contains added permitted'') [] None text;
          text = replace_codes E_NUMBER_MAP text;
          text = replace_codes INDIAN_INGREDIENT_MAP text;
          text = re_sub m_brackets [] None text;
          text = re_sub m_as_role [] None text;
          text = re_sub m_separator '','' None text;
          text = re_sub m_enumeration [] None text;
          text = re_sub m_header '','' None text
      in text)"

definition skip_words :: "string list" where
  "skip_words = [''ingredients'', ''contains'', ''allergen'', ''advice'', ''information'',
                 ''may contain'', ''traces'', ''added permitted'', ''natural identical'',
                 ''flavouring substances'', ''natural'', ''artificial'']"

definition strip_special :: "string \<Rightarrow> string" where
  \<comment> \<open>\<open>re.sub(r'^[^a-z0-9]+|[^a-z0-9]+$', '', ing, flags=re.IGNORECASE)\<close>\<close>
  "strip_special ing =
     rev (dropWhile (\<lambda>c. \<not> is_alnum c) (rev (dropWhile (\<lambda>c. \<not> is_alnum c) ing)))"

fun clean_tokens :: "string list \<Rightarrow> string list" where
  \<comment> \<open>the \<open>for ing in raw_ingredients\<close> loop; each \<open>continue\<close> drops the piece\<close>
  "clean_tokens [] = []"
| "clean_tokens (ing # rest) =
     (if length ing < 3 then clean_tokens rest
      else if list_ex (\<lambda>skip. contains skip (lower ing)) skip_words \<and> length (split_ws ing) < 3
        then clean_tokens rest
      else (let ing' = strip_special ing in
            if \<not> list_ex is_letter ing' then clean_tokens rest
            else ing' # clean_tokens rest))"

definition extract_ingredients_list :: "string \<Rightarrow> string list" where
  "extract_ingredients_list cleaned_text =
     clean_tokens (filter (\<lambda>i. i \<noteq> []) (map strip (split_on CHR '','' cleaned_text)))"

subsection \<open>The reference catalog and its variant index\<close>

record ReferenceEntry =
  Food_Ingredient :: string
  Nutrition_Score :: rat
  Health_Label :: string
  Remarks :: string
  Category :: string

definition Ingredient_LC :: "ReferenceEntry \<Rightarrow> string" where
  \<comment> \<open>\<open>df['Ingredient_LC'] = df['Food_Ingredient'].str.lower().str.strip()\<close>\<close>
  "Ingredient_LC row = strip (lower (Food_Ingredient row))"

definition filler_words :: "string list" where
  "filler_words = [''powder'', ''extract'', ''natural'', ''artificial'', ''added'', ''permitted'']"

definition clean_name_of :: "string \<Rightarrow> string" where
  \<comment> \<open>\<open>re.sub(r'\b(powder|extract|natural|artificial|added|permitted)\b', '', ingredient).strip()\<close>\<close>
  "clean_name_of ingredient = strip (re_sub (m_words filler_words) [] None ingredient)"

type_synonym ingredient_dict = "(string \<times> nat) list"

definition register_row :: "ingredient_dict \<Rightarrow> nat \<times> ReferenceEntry \<Rightarrow> ingredient_dict" where
  \<comment> \<open>the body of the loop of \<open>create_ingredient_variations\<close>; \<open>AList.update\<close> is the
      assignment \<open>d[k] = v\<close>: an existing key keeps its place, a new key goes to the end\<close>
  "register_row m ir =
     (case ir of (idx, row) \<Rightarrow>
        (let ingredient = Ingredient_LC row;
             m1 = AList.update ingredient idx m;
             clean_name = clean_name_of ingredient
         in if clean_name \<noteq> [] \<and> clean_name \<noteq> ingredient
            then (if map_of m1 clean_name = None then AList.update clean_name idx m1 else m1)
            else m1))"

definition create_ingredient_variations :: "ReferenceEntry list \<Rightarrow> ingredient_dict" where
  \<comment> \<open>\<open>for idx, row in self.df.iterrows()\<close>, starting from the empty dict\<close>
  "create_ingredient_variations rows = foldl register_row [] (enumerate 0 rows)"

record FoodAnalyzer =
  df :: "ReferenceEntry list"
  ingredient_map :: ingredient_dict
  vector_sims :: "string \<Rightarrow> rat list option"
    \<comment> \<open>\<open>cosine_similarity(vectorizer.transform([q]), ingredient_vectors)[0]\<close>, or \<open>None\<close>
        when that raises\<close>

definition FoodAnalyzer_init :: "ReferenceEntry list \<Rightarrow> (string \<Rightarrow> rat list option) \<Rightarrow> FoodAnalyzer" where
  \<comment> \<open>\<open>__init__\<close> after \<open>pd.read_csv\<close>: the rows and the fitted vector model are given\<close>
  "FoodAnalyzer_init rows vec =
     \<lparr>df = rows, ingredient_map = create_ingredient_variations rows, vector_sims = vec\<rparr>"

subsection \<open>Sequence similarity\<close>

text \<open>
  \<open>difflib.SequenceMatcher(None, a, b).ratio()\<close> is \<open>2.0 * M / T\<close>, where \<open>T\<close> is the total
  length of both strings and \<open>M\<close> the number of matched characters: the longest common block
  is taken (of several longest ones the one that starts earliest in \<open>a\<close>, then earliest in
  \<open>b\<close>), and the pieces to its left and to its right are matched in the same way. The
  ratio is \<open>1.0\<close> when both strings are empty. No character is junk: \<open>isjunk\<close> is \<open>None\<close>,
  and the automatic junk heuristic applies only to a second string of 200 characters or
  more, which the model leaves out.
\<close>

fun common_prefix_len :: "string \<Rightarrow> string \<Rightarrow> nat" where
  "common_prefix_len (x # xs) (y # ys) = (if x = y then Suc (common_prefix_len xs ys) else 0)"
| "common_prefix_len xs ys = 0"

fun scan_b :: "nat \<Rightarrow> string \<Rightarrow> nat \<Rightarrow> string \<Rightarrow> nat \<times> nat \<times> nat \<Rightarrow> nat \<times> nat \<times> nat" where
  "scan_b i as j [] best = best"
| "scan_b i as j (b # bs) best =
     (let k = common_prefix_len as (b # bs)
      in scan_b i as (Suc j) bs (if k > snd (snd best) then (i, j, k) else best))"

fun scan_a :: "nat \<Rightarrow> string \<Rightarrow> string \<Rightarrow> nat \<times> nat \<times> nat \<Rightarrow> nat \<times> nat \<times> nat" where
  "scan_a i [] b best = best"
| "scan_a i (a # as) b best = scan_a (Suc i) as b (scan_b i (a # as) 0 b best)"

definition find_longest_match :: "string \<Rightarrow> string \<Rightarrow> nat \<times> nat \<times> nat" where
  \<comment> \<open>\<open>(i, j, k)\<close>: the block \<open>a[i:i+k] == b[j:j+k]\<close>; \<open>k = 0\<close> when nothing matches\<close>
  "find_longest_match a b = scan_a 0 a b (0, 0, 0)"

lemma scan_b_bound:
  "i < N \<Longrightarrow> (0 < snd (snd best) \<longrightarrow> fst best < N) \<Longrightarrow>
   0 < snd (snd (scan_b i as j bs best)) \<longrightarrow> fst (scan_b i as j bs best) < N"
  by (induction bs arbitrary: j best) (auto simp: Let_def)

lemma scan_a_bound:
  "(0 < snd (snd best) \<longrightarrow> fst best < i + length as) \<Longrightarrow>
   0 < snd (snd (scan_a i as b best)) \<longrightarrow> fst (scan_a i as b best) < i + length as"
proof (induction as arbitrary: i best)
  case Nil
  then show ?case by simp
next
  case (Cons a as)
  have "0 < snd (snd (scan_b i (a # as) 0 b best)) \<longrightarrow>
        fst (scan_b i (a # as) 0 b best) < Suc i + length as"
    using Cons.prems by (intro scan_b_bound) auto
  from Cons.IH [OF this] show ?case by simp
qed

lemma find_longest_match_bound:
  "find_longest_match a b = (i, j, k) \<Longrightarrow> 0 < k \<Longrightarrow> i < length a"
  using scan_a_bound [of "(0, 0, 0)" 0 a b] by (simp add: find_longest_match_def)

function matching_count :: "string \<Rightarrow> string \<Rightarrow> nat" where
  \<comment> \<open>the sum of the sizes of \<open>get_matching_blocks()\<close>\<close>
  "matching_count a b =
     (case find_longest_match a b of
        (i, j, k) \<Rightarrow>
          if k = 0 then 0
          else k + matching_count (take i a) (take j b)
                 + matching_count (drop (i + k) a) (drop (j + k) b))"
  by pat_completeness auto
termination
proof (relation "measure (\<lambda>(a, b). length a)")
  show "wf (measure (\<lambda>(a, b). length a))" by simp
next
  fix a b :: string and i y j k
  assume "(i, y) = find_longest_match a b" "(j, k) = y" "k \<noteq> 0"
  then have "i < length a" using find_longest_match_bound [of a b i j k] by simp
  then show "((take i a, take j b), a, b) \<in> measure (\<lambda>(a, b). length a)" by simp
next
  fix a b :: string and i y j k
  assume "(i, y) = find_longest_match a b" "(j, k) = y" "k \<noteq> 0"
  then have "i < length a" using find_longest_match_bound [of a b i j k] by simp
  then show "((drop (i + k) a, drop (j + k) b), a, b) \<in> measure (\<lambda>(a, b). length a)"
    using \<open>k \<noteq> 0\<close> by simp
qed

definition SequenceMatcher_ratio :: "string \<Rightarrow> string \<Rightarrow> rat" where
  "SequenceMatcher_ratio a b =
     (if length a + length b = 0 then 1
      else 2 * of_nat (matching_count a b) / of_nat (length a + length b))"

definition calculate_similarity :: "string \<Rightarrow> string \<Rightarrow> rat" where
  "calculate_similarity str1 str2 = SequenceMatcher_ratio (lower str1) (lower str2)"

subsection \<open>Number formatting and rounding\<close>

text \<open>
  \<open>round(x, 2)\<close> and the format \<open>:.2f\<close> round to the nearest multiple of \<open>0.01\<close>. The
  model breaks a tie towards the even multiple, as Python does for a tie that is exact in
  binary (\<open>0.125\<close> gives \<open>0.12\<close>). A value that is a tie only in decimal notation is
  no tie for Python, which rounds the binary value of the float; the properties below do
  not depend on how ties are broken.
\<close>

definition round_half_even :: "rat \<Rightarrow> int" where
  "round_half_even x =
     (let f = \<lfloor>x\<rfloor>; d = x - of_int f in
      if d < 1 / 2 then f else if 1 / 2 < d then f + 1 else if even f then f else f + 1)"

definition round2 :: "rat \<Rightarrow> rat" where
  \<comment> \<open>\<open>round(x, 2)\<close>\<close>
  "round2 x = of_int (round_half_even (x * 100)) / 100"

definition digit_char :: "nat \<Rightarrow> char" where
  "digit_char d = ''0123456789'' ! (d mod 10)"

fun digits_of :: "nat \<Rightarrow> string" where
  "digits_of n = (if n < 10 then [digit_char n] else digits_of (n div 10) @ [digit_char n])"

definition format_2f :: "rat \<Rightarrow> string" where
  \<comment> \<open>the format specification \<open>:.2f\<close>\<close>
  "format_2f x =
     (let n = nat \<bar>round_half_even (x * 100)\<bar> in
      (if x < 0 then ''-'' else []) @ digits_of (n div 100) @ ''.''
        @ [digit_char (n div 10), digit_char n])"

subsection \<open>The ingredient resolver\<close>

definition EXACT_MATCH_THRESHOLD :: rat where "EXACT_MATCH_THRESHOLD = 95 / 100"
definition FUZZY_MATCH_THRESHOLD :: rat where "FUZZY_MATCH_THRESHOLD = 80 / 100"
definition TFIDF_THRESHOLD :: rat where "TFIDF_THRESHOLD = 50 / 100"

datatype py_exception = IndexError | TypeError

text \<open>The result dict of one token; the field \<open>method_tag\<close> is its key \<open>'method'\<close>.\<close>

record IngredientResult =
  ingredient :: string
  matched_as :: string
  score :: rat
  label :: string
  remark :: string
  category :: string
  confidence :: rat
  method_tag :: string

definition iloc :: "ReferenceEntry list \<Rightarrow> nat option \<Rightarrow> py_exception + ReferenceEntry" where
  \<comment> \<open>\<open>self.df.iloc[idx]\<close>: a position outside the frame raises \<open>IndexError\<close>, the index
      \<open>None\<close> raises \<open>TypeError\<close>\<close>
  "iloc rows idx =
     (case idx of
        None \<Rightarrow> Inl TypeError
      | Some i \<Rightarrow> if i < length rows then Inr (rows ! i) else Inl IndexError)"

definition row_result :: "string \<Rightarrow> ReferenceEntry \<Rightarrow> rat \<Rightarrow> string \<Rightarrow> IngredientResult" where
  \<comment> \<open>the dict that each of the four strategies returns for its row\<close>
  "row_result ing row conf meth =
     \<lparr>ingredient = ing, matched_as = Food_Ingredient row, score = Nutrition_Score row,
      label = Health_Label row, remark = Remarks row, category = Category row,
      confidence = conf, method_tag = meth\<rparr>"

definition matched_row ::
  "FoodAnalyzer \<Rightarrow> string \<Rightarrow> nat option \<Rightarrow> rat \<Rightarrow> string \<Rightarrow> py_exception + IngredientResult option" where
  \<comment> \<open>\<open>row = self.df.iloc[idx]; return {...}\<close>\<close>
  "matched_row self ing idx conf meth =
     (case iloc (df self) idx of
        Inl e \<Rightarrow> Inl e
      | Inr row \<Rightarrow> Inr (Some (row_result ing row conf meth)))"

definition fuzzy_step :: "string \<Rightarrow> rat \<times> nat option \<Rightarrow> string \<times> nat \<Rightarrow> rat \<times> nat option" where
  "fuzzy_step ing_lc best entry =
     (let similarity = calculate_similarity ing_lc (fst entry) in
      if fst best < similarity then (similarity, Some (snd entry)) else best)"

definition best_fuzzy :: "ingredient_dict \<Rightarrow> string \<Rightarrow> rat \<times> nat option" where
  \<comment> \<open>\<open>(best_fuzzy_score, best_fuzzy_idx)\<close> after the loop over \<open>ingredient_map.items()\<close>\<close>
  "best_fuzzy m ing_lc = foldl (fuzzy_step ing_lc) (0, None) m"

fun argmax_from :: "nat \<Rightarrow> nat \<times> rat \<Rightarrow> rat list \<Rightarrow> nat \<times> rat" where
  "argmax_from i best [] = best"
| "argmax_from i best (x # xs) = argmax_from (Suc i) (if snd best < x then (i, x) else best) xs"

definition argmax :: "rat list \<Rightarrow> (nat \<times> rat) option" where
  \<comment> \<open>\<open>sims.argmax()\<close> with the value there: the first position of the maximum; an empty
      row raises\<close>
  "argmax sims = (case sims of [] \<Rightarrow> None | x # xs \<Rightarrow> Some (argmax_from 1 (0, x) xs))"

definition tfidf_match :: "FoodAnalyzer \<Rightarrow> string \<Rightarrow> string \<Rightarrow> IngredientResult option" where
  \<comment> \<open>the \<open>try\<close> block; \<open>except: pass\<close> turns every exception into "no result"\<close>
  "tfidf_match self ing ing_lc =
     (case vector_sims self ing_lc of
        None \<Rightarrow> None
      | Some sims \<Rightarrow>
          (case argmax sims of
             None \<Rightarrow> None
           | Some (best_tfidf_idx, best_tfidf_score) \<Rightarrow>
               if TFIDF_THRESHOLD < best_tfidf_score then
                 (case iloc (df self) (Some best_tfidf_idx) of
                    Inl e \<Rightarrow> None
                  | Inr row \<Rightarrow>
                      Some (row_result ing row best_tfidf_score
                              (''tfidf_match ('' @ format_2f best_tfidf_score @ '')'')))
               else None))"

definition partial_step :: "string \<Rightarrow> rat \<times> nat option \<Rightarrow> string \<times> nat \<Rightarrow> rat \<times> nat option" where
  "partial_step ing_lc best entry =
     (let words_in_ingredient = set (split_ws ing_lc);
          words_in_db = set (split_ws (fst entry)) in
      if words_in_ingredient \<noteq> {} \<and> words_in_db \<noteq> {} then
        (let overlap = card (words_in_ingredient \<inter> words_in_db);
             total_words = card (words_in_ingredient \<union> words_in_db);
             partial_score = of_nat overlap / of_nat total_words in
         if fst best < partial_score then (partial_score, Some (snd entry)) else best)
      else best)"

definition best_partial :: "ingredient_dict \<Rightarrow> string \<Rightarrow> rat \<times> nat option" where
  "best_partial m ing_lc = foldl (partial_step ing_lc) (0, None) m"

definition find_best_match :: "FoodAnalyzer \<Rightarrow> string \<Rightarrow> py_exception + IngredientResult option" where
  "find_best_match self ing =
     (let ing_lc = strip (lower ing) in
      case map_of (ingredient_map self) ing_lc of
        Some idx \<Rightarrow> matched_row self ing (Some idx) 1 ''exact_match''
      | None \<Rightarrow>
          (case best_fuzzy (ingredient_map self) ing_lc of
             (best_fuzzy_score, best_fuzzy_idx) \<Rightarrow>
               if FUZZY_MATCH_THRESHOLD \<le> best_fuzzy_score then
                 matched_row self ing best_fuzzy_idx best_fuzzy_score
                   (''fuzzy_match ('' @ format_2f best_fuzzy_score @ '')'')
               else
                 (case tfidf_match self ing ing_lc of
                    Some r \<Rightarrow> Inr (Some r)
                  | None \<Rightarrow>
                      (case best_partial (ingredient_map self) ing_lc of
                         (best_partial_score, best_partial_idx) \<Rightarrow>
                           if 6 / 10 \<le> best_partial_score then
                             matched_row self ing best_partial_idx best_partial_score
                               (''partial_match ('' @ format_2f best_partial_score @ '')'')
                           else Inr None))))"

subsection \<open>The classifier of unmatched ingredients\<close>

definition mentions :: "string list \<Rightarrow> string \<Rightarrow> bool" where
  \<comment> \<open>\<open>any(x in ing for x in keywords)\<close>\<close>
  "mentions keywords ing = list_ex (\<lambda>x. contains x ing) keywords"

definition unknown_result :: "string \<Rightarrow> rat \<Rightarrow> string \<Rightarrow> string \<Rightarrow> string \<Rightarrow> rat \<Rightarrow> string \<Rightarrow> IngredientResult" where
  "unknown_result ing sc lab rem cat conf meth =
     \<lparr>ingredient = ing, matched_as = ''Not in Database'', score = sc, label = lab,
      remark = rem, category = cat, confidence = conf, method_tag = meth\<rparr>"

definition emoji_cross :: string where "emoji_cross = [CHR 0xE2, CHR 0x9D, CHR 0x8C]"
definition emoji_warning :: string where
  "emoji_warning = [CHR 0xE2, CHR 0x9A, CHR 0xA0, CHR 0xEF, CHR 0xB8, CHR 0x8F]"
definition emoji_candy :: string where "emoji_candy = [CHR 0xF0, CHR 0x9F, CHR 0x8D, CHR 0xAC]"
definition emoji_check :: string where "emoji_check = [CHR 0xE2, CHR 0x9C, CHR 0x85]"
definition emoji_question :: string where "emoji_question = [CHR 0xE2, CHR 0x9D, CHR 0x93]"
definition emoji_thumbs_up :: string where "emoji_thumbs_up = [CHR 0xF0, CHR 0x9F, CHR 0x91, CHR 0x8D]"
definition emoji_siren :: string where "emoji_siren = [CHR 0xF0, CHR 0x9F, CHR 0x9A, CHR 0xA8]"

definition analyze_unknown_ingredient :: "string \<Rightarrow> IngredientResult" where
  "analyze_unknown_ingredient ing0 =
     (let ing = lower ing0 in
      if mentions [''trans fat'', ''partially hydrogenated'', ''hydrogenated oil''] ing then
        unknown_result ing0 1 ''Avoid''
          (emoji_cross @ '' Trans fats detected - Highly harmful to heart health'')
          ''Fats & Oils'' (8 / 10) ''keyword_detection''
      else if mentions [''artificial color'', ''artificial colour'', ''tartrazine'',
                        ''sunset yellow''] ing then
        unknown_result ing0 2 ''Avoid''
          (emoji_warning @ '' Artificial colorant - May cause allergic reactions'')
          ''Additives'' (75 / 100) ''keyword_detection''
      else if mentions [''preservative'', ''benzoate'', ''sorbate'', ''sulfite'', ''nitrite'',
                        ''nitrate''] ing then
        unknown_result ing0 3 ''Caution''
          (emoji_warning @ '' Chemical preservative - Consume in moderation'')
          ''Preservatives'' (7 / 10) ''keyword_detection''
      else if mentions [''msg'', ''monosodium glutamate'', ''disodium'', ''flavor enhancer''] ing then
        unknown_result ing0 3 ''Caution''
          (emoji_warning @ '' Flavor enhancer - May cause sensitivity in some people'')
          ''Flavor Enhancers'' (7 / 10) ''keyword_detection''
      else if mentions [''sugar'', ''syrup'', ''high fructose'', ''corn syrup''] ing then
        unknown_result ing0 (35 / 10) ''Caution''
          (emoji_candy @ '' High sugar content - Limit consumption'')
          ''Sweeteners'' (75 / 100) ''keyword_detection''
      else if mentions [''vitamin'', ''mineral'', ''probiotic'', ''lactobacillus'',
                        ''bifidobacterium''] ing then
        unknown_result ing0 8 ''Healthy''
          (emoji_check @ '' Beneficial nutrient or probiotic'')
          ''Nutrients'' (8 / 10) ''keyword_detection''
      else if mentions [''whole grain'', ''whole wheat'', ''oats'', ''quinoa'', ''brown rice''] ing then
        unknown_result ing0 (85 / 10) ''Healthy''
          (emoji_check @ '' Whole grain - Good source of fiber'')
          ''Grains'' (8 / 10) ''keyword_detection''
      else
        unknown_result ing0 5 ''Unknown''
          (emoji_question @ '' Ingredient not found in database - Neutral impact assumed'')
          ''Unknown'' 0 ''not_found'')"

subsection \<open>The aggregator\<close>

record Flags =
  has_harmful :: bool
  has_caution :: bool

text \<open>
  The report is a dict. The keys \<open>error\<close>, \<open>matched_ingredients\<close> and
  \<open>unmatched_ingredients\<close> are present in only one of the two dicts that \<open>analyze_product\<close>
  builds, so their fields are optional: \<open>None\<close> is an absent key.
\<close>

record ProductReport =
  error :: "string option"
  product_name :: string
  final_score :: rat
  total_ingredients :: nat
  matched_ingredients :: "nat option"
  unmatched_ingredients :: "nat option"
  recommendation :: string
  ingredients :: "IngredientResult list"
  flags :: Flags

definition generate_recommendation :: "rat \<Rightarrow> bool \<Rightarrow> bool \<Rightarrow> nat \<Rightarrow> nat \<Rightarrow> string" where
  \<comment> \<open>\<open>_generate_recommendation\<close>; its local \<open>match_rate\<close> is computed and never used\<close>
  "generate_recommendation sc has_avoid has_caution_flag matched total_n =
     (let recommendation =
        (if 8 \<le> sc then
           emoji_check @ '' Excellent Choice! This product is healthy and nutritious.''
         else if 65 / 10 \<le> sc then
           emoji_thumbs_up @ '' Good Choice! Generally safe but consume in moderation.''
         else if 5 \<le> sc then
           emoji_warning @ '' Moderate! Contains some ingredients to be cautious about.''
         else if 3 \<le> sc then
           emoji_siren @ '' Poor Choice! Contains multiple harmful ingredients. Limit consumption.''
         else
           emoji_cross @ '' Avoid! This product contains highly harmful ingredients.'')
      in if has_avoid then recommendation @ '' Contains harmful ingredients.''
         else if has_caution_flag then recommendation @ '' Contains ingredients requiring caution.''
         else recommendation)"

record LoopState =
  ingredient_results :: "IngredientResult list"
  matched_count :: nat
  unmatched_count :: nat
  total_score :: rat
  found_avoid :: bool
  found_caution :: bool

definition initial_state :: LoopState where
  "initial_state =
     \<lparr>ingredient_results = [], matched_count = 0, unmatched_count = 0, total_score = 0,
      found_avoid = False, found_caution = False\<rparr>"

definition track :: "LoopState \<Rightarrow> IngredientResult \<Rightarrow> LoopState" where
  \<comment> \<open>\<open>ingredient_results.append(result)\<close>, then "Track scores and flags"\<close>
  "track st result =
     (let lab = lower (label result);
          st1 = st\<lparr>ingredient_results := ingredient_results st @ [result],
                    total_score := total_score st + score result\<rparr>
      in if contains ''avoid'' lab then st1\<lparr>found_avoid := True\<rparr>
         else if contains ''caution'' lab then st1\<lparr>found_caution := True\<rparr>
         else st1)"

definition loop_body :: "FoodAnalyzer \<Rightarrow> LoopState \<Rightarrow> string \<Rightarrow> py_exception + LoopState" where
  "loop_body self st ing =
     (case find_best_match self ing of
        Inl e \<Rightarrow> Inl e
      | Inr None \<Rightarrow>
          Inr (track (st\<lparr>unmatched_count := unmatched_count st + 1\<rparr>)
                 (analyze_unknown_ingredient ing))
      | Inr (Some result) \<Rightarrow>
          Inr (track (st\<lparr>matched_count := matched_count st + 1\<rparr>) result))"

fun analyze_loop :: "FoodAnalyzer \<Rightarrow> LoopState \<Rightarrow> string list \<Rightarrow> py_exception + LoopState" where
  \<comment> \<open>\<open>for ing in ingredients_list\<close>; an exception ends the loop and the call\<close>
  "analyze_loop self st [] = Inr st"
| "analyze_loop self st (ing # rest) =
     (case loop_body self st ing of
        Inl e \<Rightarrow> Inl e
      | Inr st' \<Rightarrow> analyze_loop self st' rest)"

definition empty_report :: "string \<Rightarrow> ProductReport" where
  \<comment> \<open>the dict returned under \<open>if not ingredients_list\<close>\<close>
  "empty_report name =
     \<lparr>error = Some ''No ingredients found in text'', product_name = name, final_score = 0,
      total_ingredients = 0, matched_ingredients = None, unmatched_ingredients = None,
      recommendation = ''Unable to analyze - No ingredients detected'', ingredients = [],
      flags = \<lparr>has_harmful = False, has_caution = False\<rparr>\<rparr>"

definition make_report :: "string \<Rightarrow> LoopState \<Rightarrow> ProductReport" where
  \<comment> \<open>from "Calculate final score (simple average)" to the end of \<open>analyze_product\<close>\<close>
  "make_report name st =
     (let n = length (ingredient_results st);
          fs = round2 (if ingredient_results st \<noteq> [] then total_score st / of_nat n else 5)
      in \<lparr>error = None, product_name = name, final_score = fs, total_ingredients = n,
          matched_ingredients = Some (matched_count st),
          unmatched_ingredients = Some (unmatched_count st),
          recommendation =
            generate_recommendation fs (found_avoid st) (found_caution st) (matched_count st) n,
          ingredients = ingredient_results st,
          flags = \<lparr>has_harmful = found_avoid st, has_caution = found_caution st\<rparr>\<rparr>)"

definition analyze_tokens :: "FoodAnalyzer \<Rightarrow> string list \<Rightarrow> string \<Rightarrow> py_exception + ProductReport" where
  \<comment> \<open>\<open>analyze_product\<close> from the test \<open>if not ingredients_list\<close> on\<close>
  "analyze_tokens self ingredients_list name =
     (if ingredients_list = [] then Inr (empty_report name)
      else (case analyze_loop self initial_state ingredients_list of
              Inl e \<Rightarrow> Inl e
            | Inr st \<Rightarrow> Inr (make_report name st)))"

definition analyze_product :: "FoodAnalyzer \<Rightarrow> string \<Rightarrow> string \<Rightarrow> py_exception + ProductReport" where
  "analyze_product self raw_text name =
     analyze_tokens self (extract_ingredients_list (clean_ingredient_text raw_text)) name"

subsection \<open>Example catalogs\<close>

definition entry :: "string \<Rightarrow> rat \<Rightarrow> string \<Rightarrow> ReferenceEntry" where
  "entry name sc lab =
     \<lparr>Food_Ingredient = name, Nutrition_Score = sc, Health_Label = lab, Remarks = [],
      Category = []\<rparr>"

definition catalog_small :: "ReferenceEntry list" where
  "catalog_small = [entry ''Sugars'' 3 ''Caution'', entry ''Salt'' 4 ''Avoid'']"

definition catalog_out_of_range :: "ReferenceEntry list" where
  "catalog_out_of_range = [entry ''Salt'' 12 ''Healthy'']"

definition catalog_cocoa :: "ReferenceEntry list" where
  "catalog_cocoa =
     [entry ''Cocoa Powder'' 6 ''Healthy'', entry ''Cocoa Extract'' 6 ''Healthy'',
      entry ''Cocoa'' 7 ''Healthy'']"

definition catalog_variants :: "ReferenceEntry list" where
  "catalog_variants = [entry ''Cocoa Powder'' 6 ''Healthy'', entry ''Cocoa Extract'' 6 ''Healthy'']"

definition catalog_duplicate :: "ReferenceEntry list" where
  "catalog_duplicate = [entry ''Sugar'' 3 ''Caution'', entry ''sugar '' 2 ''Avoid'']"

definition no_vector_model :: "string \<Rightarrow> rat list option" where
  \<comment> \<open>a vector model whose \<open>transform\<close> raises on every query\<close>
  "no_vector_model q = None"

definition keen_vector_model :: "string \<Rightarrow> rat list option" where
  \<comment> \<open>a vector model that finds cosine similarity \<open>0.95\<close> with the first row and \<open>0.1\<close>
      with the second, whatever the query\<close>
  "keen_vector_model q = Some [95 / 100, 1 / 10]"

subsection \<open>Notions used in the statements\<close>

definition classifier_keywords :: "string list" where
  \<comment> \<open>all keywords of the seven rules of \<open>analyze_unknown_ingredient\<close>, in rule order\<close>
  "classifier_keywords =
     [''trans fat'', ''partially hydrogenated'', ''hydrogenated oil'',
      ''artificial color'', ''artificial colour'', ''tartrazine'', ''sunset yellow'',
      ''preservative'', ''benzoate'', ''sorbate'', ''sulfite'', ''nitrite'', ''nitrate'',
      ''msg'', ''monosodium glutamate'', ''disodium'', ''flavor enhancer'',
      ''sugar'', ''syrup'', ''high fructose'', ''corn syrup'',
      ''vitamin'', ''mineral'', ''probiotic'', ''lactobacillus'', ''bifidobacterium'',
      ''whole grain'', ''whole wheat'', ''oats'', ''quinoa'', ''brown rice'']"

definition resolved_in_database :: "FoodAnalyzer \<Rightarrow> string \<Rightarrow> bool" where
  \<comment> \<open>the token is resolved by the database cascade: \<open>find_best_match\<close> returns a result\<close>
  "resolved_in_database self t =
     (case find_best_match self t of Inr (Some r) \<Rightarrow> True | _ \<Rightarrow> False)"

definition token_result :: "FoodAnalyzer \<Rightarrow> string \<Rightarrow> IngredientResult" where
  \<comment> \<open>the result that the loop of \<open>analyze_product\<close> appends for a token\<close>
  "token_result self t =
     (case find_best_match self t of Inr (Some r) \<Rightarrow> r | _ \<Rightarrow> analyze_unknown_ingredient t)"

definition says_avoid :: "IngredientResult \<Rightarrow> bool" where
  \<comment> \<open>\<open>'avoid' in label\<close> for the lower-cased label of a result\<close>
  "says_avoid r = contains ''avoid'' (lower (label r))"

definition says_caution :: "IngredientResult \<Rightarrow> bool" where
  \<comment> \<open>\<open>'caution' in label\<close> for the lower-cased label of a result\<close>
  "says_caution r = contains ''caution'' (lower (label r))"

definition method_shape :: "rat \<Rightarrow> string \<Rightarrow> bool" where
  \<comment> \<open>the method tags of the four strategies, with the confidence they go with\<close>
  "method_shape c m =
     (m = ''exact_match'' \<and> c = 1 \<or>
      m = ''fuzzy_match ('' @ format_2f c @ '')'' \<and> FUZZY_MATCH_THRESHOLD \<le> c \<or>
      m = ''tfidf_match ('' @ format_2f c @ '')'' \<and> TFIDF_THRESHOLD < c \<or>
      m = ''partial_match ('' @ format_2f c @ '')'' \<and> 6 / 10 \<le> c)"

definition count_token :: "FoodAnalyzer \<Rightarrow> LoopState \<Rightarrow> string \<Rightarrow> LoopState" where
  \<comment> \<open>the counter that the loop body increments for a token\<close>
  "count_token self st t =
     (if resolved_in_database self t then st\<lparr>matched_count := matched_count st + 1\<rparr>
      else st\<lparr>unmatched_count := unmatched_count st + 1\<rparr>)"

definition blank :: "char \<Rightarrow> bool" where
  \<comment> \<open>whitespace or a comma: the characters of a text without tokens\<close>
  "blank c = (isspace c \<or> c = CHR '','')"

section \<open>Properties\<close>

subsection \<open>Row indices stay inside the frame\<close>

lemma update_values: "snd ` set (AList.update k v al) \<subseteq> insert v (snd ` set al)"
  by (induction al) auto

lemma register_row_values:
  "snd ` set (register_row m (i, r)) \<subseteq> insert i (snd ` set m)"
proof -
  have a: "snd ` set (AList.update k i m) \<subseteq> insert i (snd ` set m)" for k
    by (rule update_values)
  have b: "snd ` set (AList.update k' i (AList.update k i m)) \<subseteq> insert i (snd ` set m)" for k k'
    using update_values [of k' i "AList.update k i m"] a [of k] by blast
  show ?thesis
    unfolding register_row_def Let_def using a b by (simp split: if_splits)
qed

lemma foldl_register_values:
  "\<forall>v \<in> snd ` set m. v < n \<Longrightarrow>
   \<forall>v \<in> snd ` set (foldl register_row m (enumerate n rows)). v < n + length rows"
proof (induction rows arbitrary: m n)
  case Nil
  then show ?case by simp
next
  case (Cons r rows)
  have "\<forall>v \<in> snd ` set (register_row m (n, r)). v < Suc n"
    using register_row_values [of m n r] Cons.prems by fastforce
  from Cons.IH [OF this] show ?case by simp
qed

lemma ingredient_map_values:
  "j \<in> snd ` set (create_ingredient_variations rows) \<Longrightarrow> j < length rows"
  using foldl_register_values [of "[]" 0 rows]
  by (auto simp: create_ingredient_variations_def)

lemma ingredient_map_in_range:
  assumes "map_of (create_ingredient_variations rows) k = Some i"
  shows "i < length rows"
proof -
  have "(k, i) \<in> set (create_ingredient_variations rows)"
    using assms by (rule map_of_SomeD)
  then have "i \<in> snd ` set (create_ingredient_variations rows)" by force
  then show ?thesis by (rule ingredient_map_values)
qed

lemma foldl_best_idx:
  fixes f :: "rat \<times> nat option \<Rightarrow> string \<times> nat \<Rightarrow> rat \<times> nat option"
  assumes step: "\<And>acc e. f acc e = acc \<or> (fst acc < fst (f acc e) \<and> snd (f acc e) = Some (snd e))"
    and sub: "snd ` set m \<subseteq> S"
    and init: "0 \<le> fst acc0" "0 < fst acc0 \<longrightarrow> (\<exists>j \<in> S. snd acc0 = Some j)"
  shows "0 \<le> fst (foldl f acc0 m) \<and>
         (0 < fst (foldl f acc0 m) \<longrightarrow> (\<exists>j \<in> S. snd (foldl f acc0 m) = Some j))"
  using sub init
proof (induction m arbitrary: acc0)
  case Nil
  then show ?case by simp
next
  case (Cons e m)
  have e: "snd e \<in> S" using Cons.prems(1) by auto
  have "0 \<le> fst (f acc0 e) \<and> (0 < fst (f acc0 e) \<longrightarrow> (\<exists>j \<in> S. snd (f acc0 e) = Some j))"
    using step [of acc0 e] Cons.prems(2,3) e by force
  then show ?case using Cons.IH [of "f acc0 e"] Cons.prems(1) by simp
qed

lemma fuzzy_step_cases:
  "fuzzy_step q acc e = acc \<or>
   (fst acc < fst (fuzzy_step q acc e) \<and> snd (fuzzy_step q acc e) = Some (snd e))"
  by (simp add: fuzzy_step_def Let_def)

lemma partial_step_cases:
  "partial_step q acc e = acc \<or>
   (fst acc < fst (partial_step q acc e) \<and> snd (partial_step q acc e) = Some (snd e))"
  by (simp add: partial_step_def Let_def)

lemma best_fuzzy_idx:
  assumes "best_fuzzy m q = (s, i)" and "0 < s"
  shows "\<exists>j \<in> snd ` set m. i = Some j"
  using foldl_best_idx [of "fuzzy_step q" m "snd ` set m" "(0, None)", OF fuzzy_step_cases] assms
  by (simp add: best_fuzzy_def)

lemma best_partial_idx:
  assumes "best_partial m q = (s, i)" and "0 < s"
  shows "\<exists>j \<in> snd ` set m. i = Some j"
  using foldl_best_idx [of "partial_step q" m "snd ` set m" "(0, None)", OF partial_step_cases] assms
  by (simp add: best_partial_def)

lemma matched_row_init:
  "j < length rows \<Longrightarrow>
   matched_row (FoodAnalyzer_init rows vec) ing (Some j) c m =
     Inr (Some (row_result ing (rows ! j) c m))"
  by (simp add: matched_row_def iloc_def FoodAnalyzer_init_def)

lemma best_fuzzy_some:
  assumes "FUZZY_MATCH_THRESHOLD \<le> fst (best_fuzzy (create_ingredient_variations rows) q)"
  shows "\<exists>j < length rows. snd (best_fuzzy (create_ingredient_variations rows) q) = Some j"
proof -
  obtain s i where si: "best_fuzzy (create_ingredient_variations rows) q = (s, i)"
    by (cases "best_fuzzy (create_ingredient_variations rows) q")
  with assms have "0 < s" by (simp add: FUZZY_MATCH_THRESHOLD_def)
  from best_fuzzy_idx [OF si this] show ?thesis
    using si ingredient_map_values by auto
qed

lemma best_partial_some:
  assumes "6 / 10 \<le> fst (best_partial (create_ingredient_variations rows) q)"
  shows "\<exists>j < length rows. snd (best_partial (create_ingredient_variations rows) q) = Some j"
proof -
  obtain s i where si: "best_partial (create_ingredient_variations rows) q = (s, i)"
    by (cases "best_partial (create_ingredient_variations rows) q")
  with assms have "0 < s" by simp
  from best_partial_idx [OF si this] show ?thesis
    using si ingredient_map_values by auto
qed

lemma find_best_match_exact:
  assumes "map_of (create_ingredient_variations rows) (strip (lower ing)) = Some j"
  shows "find_best_match (FoodAnalyzer_init rows vec) ing =
           Inr (Some (row_result ing (rows ! j) 1 ''exact_match''))"
proof -
  have "j < length rows" using assms by (rule ingredient_map_in_range)
  then show ?thesis
    using assms matched_row_init [of j rows vec ing 1 "''exact_match''"]
    by (simp add: find_best_match_def FoodAnalyzer_init_def)
qed

lemma find_best_match_fuzzy:
  assumes "map_of (create_ingredient_variations rows) (strip (lower ing)) = None"
    and "FUZZY_MATCH_THRESHOLD \<le> fst (best_fuzzy (create_ingredient_variations rows) (strip (lower ing)))"
  shows "\<exists>j < length rows.
           snd (best_fuzzy (create_ingredient_variations rows) (strip (lower ing))) = Some j \<and>
           find_best_match (FoodAnalyzer_init rows vec) ing =
             Inr (Some (row_result ing (rows ! j)
                    (fst (best_fuzzy (create_ingredient_variations rows) (strip (lower ing))))
                    (''fuzzy_match ('' @
                       format_2f (fst (best_fuzzy (create_ingredient_variations rows) (strip (lower ing))))
                       @ '')'')))"
proof -
  obtain j where j: "j < length rows"
      "snd (best_fuzzy (create_ingredient_variations rows) (strip (lower ing))) = Some j"
    using best_fuzzy_some [OF assms(2)] by blast
  have "find_best_match (FoodAnalyzer_init rows vec) ing =
          matched_row (FoodAnalyzer_init rows vec) ing (Some j)
            (fst (best_fuzzy (create_ingredient_variations rows) (strip (lower ing))))
            (''fuzzy_match ('' @
               format_2f (fst (best_fuzzy (create_ingredient_variations rows) (strip (lower ing))))
               @ '')'')"
    using assms j(2)
    by (simp add: find_best_match_def FoodAnalyzer_init_def Let_def case_prod_beta)
  then show ?thesis using j matched_row_init [OF j(1)] by auto
qed

lemma find_best_match_tfidf:
  assumes "map_of (create_ingredient_variations rows) (strip (lower ing)) = None"
    and "fst (best_fuzzy (create_ingredient_variations rows) (strip (lower ing))) < FUZZY_MATCH_THRESHOLD"
    and "tfidf_match (FoodAnalyzer_init rows vec) ing (strip (lower ing)) = Some r"
  shows "find_best_match (FoodAnalyzer_init rows vec) ing = Inr (Some r)"
  using assms by (simp add: find_best_match_def FoodAnalyzer_init_def Let_def case_prod_beta)

lemma find_best_match_partial:
  assumes "map_of (create_ingredient_variations rows) (strip (lower ing)) = None"
    and "fst (best_fuzzy (create_ingredient_variations rows) (strip (lower ing))) < FUZZY_MATCH_THRESHOLD"
    and "tfidf_match (FoodAnalyzer_init rows vec) ing (strip (lower ing)) = None"
    and "6 / 10 \<le> fst (best_partial (create_ingredient_variations rows) (strip (lower ing)))"
  shows "\<exists>j < length rows.
           snd (best_partial (create_ingredient_variations rows) (strip (lower ing))) = Some j \<and>
           find_best_match (FoodAnalyzer_init rows vec) ing =
             Inr (Some (row_result ing (rows ! j)
                    (fst (best_partial (create_ingredient_variations rows) (strip (lower ing))))
                    (''partial_match ('' @
                       format_2f (fst (best_partial (create_ingredient_variations rows) (strip (lower ing))))
                       @ '')'')))"
proof -
  obtain j where j: "j < length rows"
      "snd (best_partial (create_ingredient_variations rows) (strip (lower ing))) = Some j"
    using best_partial_some [OF assms(4)] by blast
  have "find_best_match (FoodAnalyzer_init rows vec) ing =
          matched_row (FoodAnalyzer_init rows vec) ing (Some j)
            (fst (best_partial (create_ingredient_variations rows) (strip (lower ing))))
            (''partial_match ('' @
               format_2f (fst (best_partial (create_ingredient_variations rows) (strip (lower ing))))
               @ '')'')"
    using assms j(2)
    by (simp add: find_best_match_def FoodAnalyzer_init_def Let_def case_prod_beta)
  then show ?thesis using j matched_row_init [OF j(1)] by auto
qed

lemma find_best_match_none:
  assumes "map_of (create_ingredient_variations rows) (strip (lower ing)) = None"
    and "fst (best_fuzzy (create_ingredient_variations rows) (strip (lower ing))) < FUZZY_MATCH_THRESHOLD"
    and "tfidf_match (FoodAnalyzer_init rows vec) ing (strip (lower ing)) = None"
    and "fst (best_partial (create_ingredient_variations rows) (strip (lower ing))) < 6 / 10"
  shows "find_best_match (FoodAnalyzer_init rows vec) ing = Inr None"
  using assms by (simp add: find_best_match_def FoodAnalyzer_init_def Let_def case_prod_beta)

lemma find_best_match_total:
  "\<exists>r. find_best_match (FoodAnalyzer_init rows vec) ing = Inr r"
proof (cases "map_of (create_ingredient_variations rows) (strip (lower ing))")
  case (Some j)
  then show ?thesis using find_best_match_exact by blast
next
  case None
  show ?thesis
  proof (cases "FUZZY_MATCH_THRESHOLD \<le> fst (best_fuzzy (create_ingredient_variations rows) (strip (lower ing)))")
    case True
    then show ?thesis using find_best_match_fuzzy [OF None True, of vec] by blast
  next
    case False
    then have f: "fst (best_fuzzy (create_ingredient_variations rows) (strip (lower ing))) < FUZZY_MATCH_THRESHOLD"
      by simp
    show ?thesis
    proof (cases "tfidf_match (FoodAnalyzer_init rows vec) ing (strip (lower ing))")
      case (Some r)
      then show ?thesis using find_best_match_tfidf [OF None f] by blast
    next
      case tn: None
      show ?thesis
      proof (cases "6 / 10 \<le> fst (best_partial (create_ingredient_variations rows) (strip (lower ing)))")
        case True
        then show ?thesis using find_best_match_partial [OF None f tn True] by blast
      next
        case False
        then show ?thesis using find_best_match_none [OF None f tn] by simp
      qed
    qed
  qed
qed

subsection \<open>Strategy priority\<close>

text \<open>
  Claim C1. \<open>find_best_match\<close> runs its strategies in the order exact, fuzzy, TF-IDF,
  partial, and the first one that clears its threshold returns. In particular, a token that
  is no key of the variant index and whose best fuzzy ratio is at least \<open>0.80\<close> gets the
  fuzzy result, with the fuzzy ratio as its confidence, whatever the vector model would
  return for it (the statement holds for every \<open>vec\<close>). The TF-IDF result is returned only
  below the fuzzy threshold, the partial result only when TF-IDF gave nothing, and no
  result combines two strategies.
\<close>

theorem find_best_match_priority:
  fixes rows :: "ReferenceEntry list" and vec :: "string \<Rightarrow> rat list option" and ing :: string
  defines "self \<equiv> FoodAnalyzer_init rows vec"
    and "q \<equiv> strip (lower ing)"
    and "fz \<equiv> best_fuzzy (create_ingredient_variations rows) (strip (lower ing))"
    and "pt \<equiv> best_partial (create_ingredient_variations rows) (strip (lower ing))"
  shows
    "(\<forall>j. map_of (ingredient_map self) q = Some j \<longrightarrow>
        find_best_match self ing = Inr (Some (row_result ing (rows ! j) 1 ''exact_match''))) \<and>
     (map_of (ingredient_map self) q = None \<and> FUZZY_MATCH_THRESHOLD \<le> fst fz \<longrightarrow>
        (\<exists>j < length rows. snd fz = Some j \<and>
           find_best_match self ing =
             Inr (Some (row_result ing (rows ! j) (fst fz)
                    (''fuzzy_match ('' @ format_2f (fst fz) @ '')''))))) \<and>
     (map_of (ingredient_map self) q = None \<and> fst fz < FUZZY_MATCH_THRESHOLD \<and>
      tfidf_match self ing q \<noteq> None \<longrightarrow>
        find_best_match self ing = Inr (tfidf_match self ing q)) \<and>
     (map_of (ingredient_map self) q = None \<and> fst fz < FUZZY_MATCH_THRESHOLD \<and>
      tfidf_match self ing q = None \<and> 6 / 10 \<le> fst pt \<longrightarrow>
        (\<exists>j < length rows. snd pt = Some j \<and>
           find_best_match self ing =
             Inr (Some (row_result ing (rows ! j) (fst pt)
                    (''partial_match ('' @ format_2f (fst pt) @ '')''))))) \<and>
     (map_of (ingredient_map self) q = None \<and> fst fz < FUZZY_MATCH_THRESHOLD \<and>
      tfidf_match self ing q = None \<and> fst pt < 6 / 10 \<longrightarrow>
        find_best_match self ing = Inr None)"
proof -
  have m: "ingredient_map (FoodAnalyzer_init rows vec) = create_ingredient_variations rows"
    by (simp add: FoodAnalyzer_init_def)
  have 1: "\<forall>j. map_of (ingredient_map self) q = Some j \<longrightarrow>
        find_best_match self ing = Inr (Some (row_result ing (rows ! j) 1 ''exact_match''))"
    unfolding self_def q_def m using find_best_match_exact by blast
  have 2: "map_of (ingredient_map self) q = None \<and> FUZZY_MATCH_THRESHOLD \<le> fst fz \<longrightarrow>
        (\<exists>j < length rows. snd fz = Some j \<and>
           find_best_match self ing =
             Inr (Some (row_result ing (rows ! j) (fst fz)
                    (''fuzzy_match ('' @ format_2f (fst fz) @ '')''))))"
    unfolding self_def q_def fz_def m using find_best_match_fuzzy by blast
  have 3: "map_of (ingredient_map self) q = None \<and> fst fz < FUZZY_MATCH_THRESHOLD \<and>
      tfidf_match self ing q \<noteq> None \<longrightarrow>
        find_best_match self ing = Inr (tfidf_match self ing q)"
    unfolding self_def q_def fz_def m using find_best_match_tfidf by fastforce
  have 4: "map_of (ingredient_map self) q = None \<and> fst fz < FUZZY_MATCH_THRESHOLD \<and>
      tfidf_match self ing q = None \<and> 6 / 10 \<le> fst pt \<longrightarrow>
        (\<exists>j < length rows. snd pt = Some j \<and>
           find_best_match self ing =
             Inr (Some (row_result ing (rows ! j) (fst pt)
                    (''partial_match ('' @ format_2f (fst pt) @ '')''))))"
    unfolding self_def q_def fz_def pt_def m using find_best_match_partial by blast
  have 5: "map_of (ingredient_map self) q = None \<and> fst fz < FUZZY_MATCH_THRESHOLD \<and>
      tfidf_match self ing q = None \<and> fst pt < 6 / 10 \<longrightarrow>
        find_best_match self ing = Inr None"
    unfolding self_def q_def fz_def pt_def m using find_best_match_none by blast
  from 1 2 3 4 5 show ?thesis by blast
qed

text \<open>
  The token \<open>sugar\<close> against the catalog entry \<open>Sugars\<close>: the fuzzy ratio is \<open>10/11\<close>, the
  vector model would return the same row with the higher similarity \<open>0.95\<close>, and the
  resolver returns the fuzzy result with confidence \<open>10/11\<close>.
\<close>

theorem find_best_match_priority_witness:
  "map_of (ingredient_map (FoodAnalyzer_init catalog_small keen_vector_model)) (strip (lower ''sugar'')) = None \<and>
   FUZZY_MATCH_THRESHOLD \<le> fst (best_fuzzy (create_ingredient_variations catalog_small) (strip (lower ''sugar''))) \<and>
   map_option confidence (tfidf_match (FoodAnalyzer_init catalog_small keen_vector_model) ''sugar'' (strip (lower ''sugar''))) = Some (95 / 100) \<and>
   find_best_match (FoodAnalyzer_init catalog_small keen_vector_model) ''sugar'' =
     Inr (Some (row_result ''sugar'' (entry ''Sugars'' 3 ''Caution'') (10 / 11) ''fuzzy_match (0.91)''))"
proof -
  have a: "map_of (ingredient_map (FoodAnalyzer_init catalog_small keen_vector_model)) (strip (lower ''sugar'')) = None"
    by code_simp
  have b: "best_fuzzy (create_ingredient_variations catalog_small) (strip (lower ''sugar'')) = (10 / 11, Some 0)"
    by code_simp
  have c: "map_option confidence (tfidf_match (FoodAnalyzer_init catalog_small keen_vector_model) ''sugar'' (strip (lower ''sugar''))) = Some (95 / 100)"
    by code_simp
  have d: "format_2f (10 / 11) = ''0.91''"
    by code_simp
  have e: "catalog_small ! 0 = entry ''Sugars'' 3 ''Caution''"
    by (simp add: catalog_small_def)
  from find_best_match_priority [of catalog_small keen_vector_model "''sugar''"] a b c d e
  show ?thesis by (simp add: FUZZY_MATCH_THRESHOLD_def)
qed

subsection \<open>The classifier and the shape of results\<close>

lemma mentions_append: "mentions (xs @ ys) s = (mentions xs s \<or> mentions ys s)"
  by (simp add: mentions_def list_ex_iff) blast

lemma classifier_cases:
  "(method_tag (analyze_unknown_ingredient ing) = ''not_found'' \<and>
    confidence (analyze_unknown_ingredient ing) = 0 \<and>
    label (analyze_unknown_ingredient ing) = ''Unknown'' \<and>
    score (analyze_unknown_ingredient ing) = 5 \<and>
    \<not> mentions classifier_keywords (lower ing)) \<or>
   (method_tag (analyze_unknown_ingredient ing) = ''keyword_detection'' \<and>
    7 / 10 \<le> confidence (analyze_unknown_ingredient ing) \<and>
    confidence (analyze_unknown_ingredient ing) \<le> 8 / 10 \<and>
    1 \<le> score (analyze_unknown_ingredient ing) \<and>
    score (analyze_unknown_ingredient ing) \<le> 85 / 10 \<and>
    mentions classifier_keywords (lower ing))"
proof -
  have k: "classifier_keywords =
     [''trans fat'', ''partially hydrogenated'', ''hydrogenated oil''] @
     [''artificial color'', ''artificial colour'', ''tartrazine'', ''sunset yellow''] @
     [''preservative'', ''benzoate'', ''sorbate'', ''sulfite'', ''nitrite'', ''nitrate''] @
     [''msg'', ''monosodium glutamate'', ''disodium'', ''flavor enhancer''] @
     [''sugar'', ''syrup'', ''high fructose'', ''corn syrup''] @
     [''vitamin'', ''mineral'', ''probiotic'', ''lactobacillus'', ''bifidobacterium''] @
     [''whole grain'', ''whole wheat'', ''oats'', ''quinoa'', ''brown rice'']"
    by (simp add: classifier_keywords_def)
  show ?thesis
    unfolding k mentions_append analyze_unknown_ingredient_def Let_def unknown_result_def
    by simp
qed

lemma tfidf_match_shape:
  assumes "tfidf_match (FoodAnalyzer_init rows vec) ing q = Some r"
  shows "\<exists>j < length rows. \<exists>c. TFIDF_THRESHOLD < c \<and>
           r = row_result ing (rows ! j) c (''tfidf_match ('' @ format_2f c @ '')'')"
  using assms
  by (auto simp: tfidf_match_def iloc_def FoodAnalyzer_init_def
           split: option.splits if_splits prod.splits sum.splits)

lemma method_shape_exact: "method_shape 1 ''exact_match''"
  by (simp add: method_shape_def)

lemma method_shape_fuzzy:
  "FUZZY_MATCH_THRESHOLD \<le> c \<Longrightarrow> method_shape c (''fuzzy_match ('' @ format_2f c @ '')'')"
  by (simp add: method_shape_def)

lemma method_shape_tfidf:
  "TFIDF_THRESHOLD < c \<Longrightarrow> method_shape c (''tfidf_match ('' @ format_2f c @ '')'')"
  by (simp add: method_shape_def)

lemma method_shape_partial:
  "6 / 10 \<le> c \<Longrightarrow> method_shape c (''partial_match ('' @ format_2f c @ '')'')"
  by (simp add: method_shape_def)

lemma find_best_match_shape:
  assumes "find_best_match (FoodAnalyzer_init rows vec) ing = Inr (Some r)"
  shows "\<exists>j < length rows. \<exists>c m. r = row_result ing (rows ! j) c m \<and> method_shape c m"
proof (cases "map_of (create_ingredient_variations rows) (strip (lower ing))")
  case (Some j)
  have j: "j < length rows" using Some by (rule ingredient_map_in_range)
  have "r = row_result ing (rows ! j) 1 ''exact_match''"
    using find_best_match_exact [OF Some, of vec] assms by simp
  then show ?thesis using j method_shape_exact by blast
next
  case None
  show ?thesis
  proof (cases "FUZZY_MATCH_THRESHOLD \<le> fst (best_fuzzy (create_ingredient_variations rows) (strip (lower ing)))")
    case True
    obtain j where j: "j < length rows"
      "find_best_match (FoodAnalyzer_init rows vec) ing =
         Inr (Some (row_result ing (rows ! j)
                (fst (best_fuzzy (create_ingredient_variations rows) (strip (lower ing))))
                (''fuzzy_match ('' @
                   format_2f (fst (best_fuzzy (create_ingredient_variations rows) (strip (lower ing))))
                   @ '')'')))"
      using find_best_match_fuzzy [OF None True, of vec] by blast
    have "r = row_result ing (rows ! j)
                (fst (best_fuzzy (create_ingredient_variations rows) (strip (lower ing))))
                (''fuzzy_match ('' @
                   format_2f (fst (best_fuzzy (create_ingredient_variations rows) (strip (lower ing))))
                   @ '')'')"
      using j(2) assms by simp
    then show ?thesis using j(1) method_shape_fuzzy [OF True] by blast
  next
    case False
    then have f: "fst (best_fuzzy (create_ingredient_variations rows) (strip (lower ing))) < FUZZY_MATCH_THRESHOLD"
      by simp
    show ?thesis
    proof (cases "tfidf_match (FoodAnalyzer_init rows vec) ing (strip (lower ing))")
      case (Some r')
      then have "r' = r" using find_best_match_tfidf [OF None f Some] assms by simp
      then show ?thesis using tfidf_match_shape [OF Some] method_shape_tfidf by blast
    next
      case tn: None
      show ?thesis
      proof (cases "6 / 10 \<le> fst (best_partial (create_ingredient_variations rows) (strip (lower ing)))")
        case True
        obtain j where j: "j < length rows"
          "find_best_match (FoodAnalyzer_init rows vec) ing =
             Inr (Some (row_result ing (rows ! j)
                    (fst (best_partial (create_ingredient_variations rows) (strip (lower ing))))
                    (''partial_match ('' @
                       format_2f (fst (best_partial (create_ingredient_variations rows) (strip (lower ing))))
                       @ '')'')))"
          using find_best_match_partial [OF None f tn True] by blast
        have "r = row_result ing (rows ! j)
                    (fst (best_partial (create_ingredient_variations rows) (strip (lower ing))))
                    (''partial_match ('' @
                       format_2f (fst (best_partial (create_ingredient_variations rows) (strip (lower ing))))
                       @ '')'')"
          using j(2) assms by simp
        then show ?thesis using j(1) method_shape_partial [OF True] by blast
      next
        case False
        then show ?thesis using find_best_match_none [OF None f tn] assms by simp
      qed
    qed
  qed
qed

lemma token_result_cases:
  "(resolved_in_database (FoodAnalyzer_init rows vec) t \<and>
      find_best_match (FoodAnalyzer_init rows vec) t = Inr (Some (token_result (FoodAnalyzer_init rows vec) t))) \<or>
   (\<not> resolved_in_database (FoodAnalyzer_init rows vec) t \<and>
      find_best_match (FoodAnalyzer_init rows vec) t = Inr None \<and>
      token_result (FoodAnalyzer_init rows vec) t = analyze_unknown_ingredient t)"
  using find_best_match_total [of rows vec t]
  by (auto simp: resolved_in_database_def token_result_def split: option.splits)

lemma row_result_fields:
  "score (row_result ing row c m) = Nutrition_Score row"
  "label (row_result ing row c m) = Health_Label row"
  "confidence (row_result ing row c m) = c"
  "method_tag (row_result ing row c m) = m"
  "ingredient (row_result ing row c m) = ing"
  "matched_as (row_result ing row c m) = Food_Ingredient row"
  by (simp_all add: row_result_def)

subsection \<open>The loop of \<open>analyze_product\<close>\<close>

lemma loop_body_init:
  "loop_body (FoodAnalyzer_init rows vec) st t =
     Inr (track (count_token (FoodAnalyzer_init rows vec) st t)
            (token_result (FoodAnalyzer_init rows vec) t))"
  using token_result_cases [of rows vec t]
  by (auto simp: loop_body_def count_token_def)

lemma track_fields:
  "ingredient_results (track st r) = ingredient_results st @ [r]"
  "matched_count (track st r) = matched_count st"
  "unmatched_count (track st r) = unmatched_count st"
  "total_score (track st r) = total_score st + score r"
  "found_avoid (track st r) = (found_avoid st \<or> says_avoid r)"
  "found_caution (track st r) = (found_caution st \<or> (says_caution r \<and> \<not> says_avoid r))"
  by (auto simp: track_def Let_def says_avoid_def says_caution_def)

lemma count_token_fields:
  "ingredient_results (count_token self st t) = ingredient_results st"
  "matched_count (count_token self st t) =
     matched_count st + (if resolved_in_database self t then 1 else 0)"
  "unmatched_count (count_token self st t) =
     unmatched_count st + (if resolved_in_database self t then 0 else 1)"
  "total_score (count_token self st t) = total_score st"
  "found_avoid (count_token self st t) = found_avoid st"
  "found_caution (count_token self st t) = found_caution st"
  by (auto simp: count_token_def)

lemma analyze_loop_init:
  "\<exists>st'. analyze_loop (FoodAnalyzer_init rows vec) st ts = Inr st' \<and>
     ingredient_results st' =
       ingredient_results st @ map (token_result (FoodAnalyzer_init rows vec)) ts \<and>
     matched_count st' =
       matched_count st + length (filter (resolved_in_database (FoodAnalyzer_init rows vec)) ts) \<and>
     unmatched_count st' =
       unmatched_count st +
       length (filter (\<lambda>t. \<not> resolved_in_database (FoodAnalyzer_init rows vec) t) ts) \<and>
     total_score st' =
       total_score st + sum_list (map (\<lambda>t. score (token_result (FoodAnalyzer_init rows vec) t)) ts) \<and>
     found_avoid st' =
       (found_avoid st \<or> (\<exists>t \<in> set ts. says_avoid (token_result (FoodAnalyzer_init rows vec) t))) \<and>
     found_caution st' =
       (found_caution st \<or>
        (\<exists>t \<in> set ts. says_caution (token_result (FoodAnalyzer_init rows vec) t) \<and>
                      \<not> says_avoid (token_result (FoodAnalyzer_init rows vec) t)))"
proof (induction ts arbitrary: st)
  case Nil
  then show ?case by simp
next
  case (Cons t ts)
  let ?self = "FoodAnalyzer_init rows vec"
  let ?st1 = "track (count_token ?self st t) (token_result ?self t)"
  obtain st' where st': "analyze_loop ?self ?st1 ts = Inr st'"
     "ingredient_results st' = ingredient_results ?st1 @ map (token_result ?self) ts"
     "matched_count st' = matched_count ?st1 + length (filter (resolved_in_database ?self) ts)"
     "unmatched_count st' =
        unmatched_count ?st1 + length (filter (\<lambda>t. \<not> resolved_in_database ?self t) ts)"
     "total_score st' = total_score ?st1 + sum_list (map (\<lambda>t. score (token_result ?self t)) ts)"
     "found_avoid st' = (found_avoid ?st1 \<or> (\<exists>t \<in> set ts. says_avoid (token_result ?self t)))"
     "found_caution st' =
        (found_caution ?st1 \<or>
         (\<exists>t \<in> set ts. says_caution (token_result ?self t) \<and> \<not> says_avoid (token_result ?self t)))"
    using Cons.IH [of ?st1] by blast
  have run: "analyze_loop ?self st (t # ts) = Inr st'"
    using st'(1) by (simp add: loop_body_init)
  show ?case
    unfolding run
    using st'(2-7) by (auto simp: track_fields count_token_fields)
qed

lemma analyze_product_init:
  assumes "extract_ingredients_list (clean_ingredient_text raw) = ts" and "ts \<noteq> []"
  shows "\<exists>st. analyze_product (FoodAnalyzer_init rows vec) raw name = Inr (make_report name st) \<and>
     ingredient_results st = map (token_result (FoodAnalyzer_init rows vec)) ts \<and>
     matched_count st = length (filter (resolved_in_database (FoodAnalyzer_init rows vec)) ts) \<and>
     unmatched_count st =
       length (filter (\<lambda>t. \<not> resolved_in_database (FoodAnalyzer_init rows vec) t) ts) \<and>
     total_score st = sum_list (map (\<lambda>t. score (token_result (FoodAnalyzer_init rows vec) t)) ts) \<and>
     found_avoid st = (\<exists>t \<in> set ts. says_avoid (token_result (FoodAnalyzer_init rows vec) t)) \<and>
     found_caution st =
       (\<exists>t \<in> set ts. says_caution (token_result (FoodAnalyzer_init rows vec) t) \<and>
                     \<not> says_avoid (token_result (FoodAnalyzer_init rows vec) t))"
proof -
  obtain st where st: "analyze_loop (FoodAnalyzer_init rows vec) initial_state ts = Inr st"
     "ingredient_results st =
        ingredient_results initial_state @ map (token_result (FoodAnalyzer_init rows vec)) ts"
     "matched_count st =
        matched_count initial_state +
        length (filter (resolved_in_database (FoodAnalyzer_init rows vec)) ts)"
     "unmatched_count st =
        unmatched_count initial_state +
        length (filter (\<lambda>t. \<not> resolved_in_database (FoodAnalyzer_init rows vec) t) ts)"
     "total_score st =
        total_score initial_state +
        sum_list (map (\<lambda>t. score (token_result (FoodAnalyzer_init rows vec) t)) ts)"
     "found_avoid st =
        (found_avoid initial_state \<or>
         (\<exists>t \<in> set ts. says_avoid (token_result (FoodAnalyzer_init rows vec) t)))"
     "found_caution st =
        (found_caution initial_state \<or>
         (\<exists>t \<in> set ts. says_caution (token_result (FoodAnalyzer_init rows vec) t) \<and>
                       \<not> says_avoid (token_result (FoodAnalyzer_init rows vec) t)))"
    using analyze_loop_init [of rows vec initial_state ts] by blast
  have run: "analyze_product (FoodAnalyzer_init rows vec) raw name = Inr (make_report name st)"
    using assms st(1) by (simp add: analyze_product_def analyze_tokens_def)
  show ?thesis
    by (rule exI [of _ st]) (use run st(2-7) in \<open>simp add: initial_state_def\<close>)
qed

lemma make_report_fields:
  "error (make_report name st) = None"
  "product_name (make_report name st) = name"
  "final_score (make_report name st) =
     round2 (if ingredient_results st \<noteq> [] then total_score st / of_nat (length (ingredient_results st)) else 5)"
  "total_ingredients (make_report name st) = length (ingredient_results st)"
  "matched_ingredients (make_report name st) = Some (matched_count st)"
  "unmatched_ingredients (make_report name st) = Some (unmatched_count st)"
  "ingredients (make_report name st) = ingredient_results st"
  "has_harmful (flags (make_report name st)) = found_avoid st"
  "has_caution (flags (make_report name st)) = found_caution st"
  by (simp_all add: make_report_def Let_def)

subsection \<open>Rounding and means\<close>

lemma round_half_even_bounds:
  assumes "of_int a \<le> x" and "x \<le> of_int b"
  shows "a \<le> round_half_even x \<and> round_half_even x \<le> b"
proof -
  have lo: "a \<le> \<lfloor>x\<rfloor>" using assms(1) by (simp add: le_floor_iff)
  have hi: "\<lfloor>x\<rfloor> \<le> b" using assms(2) by (simp add: floor_le_iff)
  have up: "\<lfloor>x\<rfloor> + 1 \<le> b" if "0 < x - of_int \<lfloor>x\<rfloor>"
  proof -
    have "of_int \<lfloor>x\<rfloor> < (of_int b :: rat)" using that assms(2) by linarith
    then have "\<lfloor>x\<rfloor> < b" by simp
    then show ?thesis by simp
  qed
  show ?thesis
    unfolding round_half_even_def Let_def using lo hi up by auto
qed

lemma round2_bounds:
  assumes "0 \<le> x" and "x \<le> 10"
  shows "0 \<le> round2 x \<and> round2 x \<le> 10"
proof -
  have "0 \<le> round_half_even (x * 100) \<and> round_half_even (x * 100) \<le> 1000"
    using assms by (intro round_half_even_bounds) auto
  then have "(0::rat) \<le> of_int (round_half_even (x * 100)) \<and>
             (of_int (round_half_even (x * 100)) :: rat) \<le> 1000"
    by (metis of_int_0_le_iff of_int_le_iff of_int_numeral)
  then show ?thesis by (simp add: round2_def)
qed

lemma sum_list_bounds:
  fixes xs :: "rat list"
  assumes "\<forall>x \<in> set xs. 0 \<le> x \<and> x \<le> 10"
  shows "0 \<le> sum_list xs \<and> sum_list xs \<le> 10 * of_nat (length xs)"
  using assms by (induction xs) (auto simp: algebra_simps)

lemma mean_bounds:
  fixes xs :: "rat list"
  assumes "\<forall>x \<in> set xs. 0 \<le> x \<and> x \<le> 10" and "xs \<noteq> []"
  shows "0 \<le> sum_list xs / of_nat (length xs) \<and> sum_list xs / of_nat (length xs) \<le> 10"
proof -
  have n: "(0::rat) < of_nat (length xs)" using assms(2) by simp
  have b: "0 \<le> sum_list xs" "sum_list xs \<le> 10 * of_nat (length xs)"
    using sum_list_bounds [OF assms(1)] by simp_all
  show ?thesis using n b by (simp add: divide_le_eq)
qed

lemma token_result_score_bounds:
  assumes "\<forall>row \<in> set rows. 0 \<le> Nutrition_Score row \<and> Nutrition_Score row \<le> 10"
  shows "0 \<le> score (token_result (FoodAnalyzer_init rows vec) t) \<and>
         score (token_result (FoodAnalyzer_init rows vec) t) \<le> 10"
proof (cases "resolved_in_database (FoodAnalyzer_init rows vec) t")
  case True
  then have "find_best_match (FoodAnalyzer_init rows vec) t =
               Inr (Some (token_result (FoodAnalyzer_init rows vec) t))"
    using token_result_cases [of rows vec t] by simp
  then obtain j c m where j: "j < length rows"
      "token_result (FoodAnalyzer_init rows vec) t = row_result t (rows ! j) c m"
    using find_best_match_shape by blast
  have "rows ! j \<in> set rows" using j(1) by simp
  then show ?thesis using assms by (simp add: j(2) row_result_fields)
next
  case False
  then have "token_result (FoodAnalyzer_init rows vec) t = analyze_unknown_ingredient t"
    using token_result_cases [of rows vec t] by simp
  then show ?thesis using classifier_cases [of t] by auto
qed


subsection \<open>Evaluations shared by the examples\<close>

lemma tokens_salt_sugar_oats:
  "extract_ingredients_list (clean_ingredient_text ''Salt, sugar, oats'') =
     [''salt'', ''sugar'', ''oats'']"
  by code_simp

lemma tokens_salt:
  "extract_ingredients_list (clean_ingredient_text ''Salt'') = [''salt'']"
  by code_simp

lemma small_salt:
  "find_best_match (FoodAnalyzer_init catalog_small no_vector_model) ''salt'' =
     Inr (Some (row_result ''salt'' (entry ''Salt'' 4 ''Avoid'') 1 ''exact_match''))"
  by code_simp

lemma small_sugar:
  "find_best_match (FoodAnalyzer_init catalog_small no_vector_model) ''sugar'' =
     Inr (Some (row_result ''sugar'' (entry ''Sugars'' 3 ''Caution'') (10 / 11) ''fuzzy_match (0.91)''))"
  by code_simp

lemma small_oats:
  "find_best_match (FoodAnalyzer_init catalog_small no_vector_model) ''oats'' = Inr None"
  by code_simp

lemma small_resolved:
  "resolved_in_database (FoodAnalyzer_init catalog_small no_vector_model) ''salt''"
  "resolved_in_database (FoodAnalyzer_init catalog_small no_vector_model) ''sugar''"
  "\<not> resolved_in_database (FoodAnalyzer_init catalog_small no_vector_model) ''oats''"
  by (simp_all add: resolved_in_database_def small_salt small_sugar small_oats)

subsection \<open>The final score\<close>

text \<open>
  Claim C3, as the code has it. \<open>analyze_product\<close> does not clamp: the final score is the
  rounded mean of the result scores, and the scores of matched tokens are the catalog's
  \<open>Nutrition_Score\<close> values as they are. When every catalog score lies in \<open>[0, 10]\<close>,
  the final score of a non-empty token list lies in \<open>[0, 10]\<close> (the classifier's scores
  lie between 1 and 8.5).
\<close>

theorem final_score_in_range:
  assumes "\<forall>row \<in> set rows. 0 \<le> Nutrition_Score row \<and> Nutrition_Score row \<le> 10"
    and "extract_ingredients_list (clean_ingredient_text raw) \<noteq> []"
  shows "\<exists>rep. analyze_product (FoodAnalyzer_init rows vec) raw name = Inr rep \<and>
           0 \<le> final_score rep \<and> final_score rep \<le> 10"
proof -
  let ?ts = "extract_ingredients_list (clean_ingredient_text raw)"
  let ?xs = "map (\<lambda>t. score (token_result (FoodAnalyzer_init rows vec) t)) ?ts"
  obtain st where st:
    "analyze_product (FoodAnalyzer_init rows vec) raw name = Inr (make_report name st)"
    "ingredient_results st = map (token_result (FoodAnalyzer_init rows vec)) ?ts"
    "total_score st = sum_list ?xs"
    using analyze_product_init [OF refl assms(2), of rows vec name] by blast
  have xs: "\<forall>x \<in> set ?xs. 0 \<le> x \<and> x \<le> 10"
    using token_result_score_bounds [OF assms(1), of vec] by auto
  have ne: "?xs \<noteq> []" using assms(2) by simp
  have mean: "0 \<le> sum_list ?xs / of_nat (length ?xs) \<and> sum_list ?xs / of_nat (length ?xs) \<le> 10"
    using mean_bounds [OF xs ne] .
  have fs: "final_score (make_report name st) = round2 (sum_list ?xs / of_nat (length ?xs))"
    using assms(2) by (simp add: make_report_fields st(2,3))
  show ?thesis
    using st(1) fs round2_bounds mean by auto
qed

theorem final_score_in_range_witness:
  "map Nutrition_Score catalog_small = [3, 4] \<and>
   extract_ingredients_list (clean_ingredient_text ''Salt, sugar, oats'') \<noteq> [] \<and>
   (\<exists>rep. analyze_product (FoodAnalyzer_init catalog_small no_vector_model)
            ''Salt, sugar, oats'' ''Snack'' = Inr rep \<and>
          0 \<le> final_score rep \<and> final_score rep \<le> 10)"
proof -
  have rows: "\<forall>row \<in> set catalog_small. 0 \<le> Nutrition_Score row \<and> Nutrition_Score row \<le> 10"
    by (simp add: catalog_small_def entry_def)
  have ne: "extract_ingredients_list (clean_ingredient_text ''Salt, sugar, oats'') \<noteq> []"
    by (simp add: tokens_salt_sugar_oats)
  have scores: "map Nutrition_Score catalog_small = [3, 4]"
    by (simp add: catalog_small_def entry_def)
  from final_score_in_range [OF rows ne, of no_vector_model "''Snack''"] scores ne
  show ?thesis by blast
qed

text \<open>
  The claim as stated fails on a catalog with a score outside \<open>[0, 10]\<close>: the entry
  \<open>Salt\<close> with score 12 gives the product \<open>Salt\<close> the final score 12.
\<close>

theorem final_score_not_clamped:
  "extract_ingredients_list (clean_ingredient_text ''Salt'') \<noteq> [] \<and>
   (\<exists>rep. analyze_product (FoodAnalyzer_init catalog_out_of_range no_vector_model)
            ''Salt'' ''Snack'' = Inr rep \<and> final_score rep = 12 \<and>
          \<not> (0 \<le> final_score rep \<and> final_score rep \<le> 10))"
proof -
  have "case analyze_product (FoodAnalyzer_init catalog_out_of_range no_vector_model)
               ''Salt'' ''Snack'' of
          Inl e \<Rightarrow> False
        | Inr rep \<Rightarrow> final_score rep = 12"
    by code_simp
  then show ?thesis by (auto simp: tokens_salt split: sum.splits)
qed

subsection \<open>Counts\<close>

text \<open>
  Claim C10. For a non-empty token list the report's \<open>matched_ingredients\<close> is the
  number of tokens for which \<open>find_best_match\<close> returns a result,
  \<open>unmatched_ingredients\<close> is the number of the other tokens, which are the ones scored
  by \<open>analyze_unknown_ingredient\<close>, the two add up to \<open>total_ingredients\<close>, and that is the
  length of the \<open>ingredients\<close> list and of the token list.
\<close>

theorem report_counts_add_up:
  assumes "extract_ingredients_list (clean_ingredient_text raw) = ts" and "ts \<noteq> []"
  shows "\<exists>rep. analyze_product (FoodAnalyzer_init rows vec) raw name = Inr rep \<and>
     matched_ingredients rep =
       Some (length (filter (resolved_in_database (FoodAnalyzer_init rows vec)) ts)) \<and>
     unmatched_ingredients rep =
       Some (length (filter (\<lambda>t. \<not> resolved_in_database (FoodAnalyzer_init rows vec) t) ts)) \<and>
     the (matched_ingredients rep) + the (unmatched_ingredients rep) = total_ingredients rep \<and>
     total_ingredients rep = length (ingredients rep) \<and>
     length (ingredients rep) = length ts \<and>
     (\<forall>i < length ts.
        if resolved_in_database (FoodAnalyzer_init rows vec) (ts ! i)
        then find_best_match (FoodAnalyzer_init rows vec) (ts ! i) = Inr (Some (ingredients rep ! i))
        else find_best_match (FoodAnalyzer_init rows vec) (ts ! i) = Inr None \<and>
             ingredients rep ! i = analyze_unknown_ingredient (ts ! i))"
proof -
  obtain st where st:
    "analyze_product (FoodAnalyzer_init rows vec) raw name = Inr (make_report name st)"
    "ingredient_results st = map (token_result (FoodAnalyzer_init rows vec)) ts"
    "matched_count st = length (filter (resolved_in_database (FoodAnalyzer_init rows vec)) ts)"
    "unmatched_count st =
       length (filter (\<lambda>t. \<not> resolved_in_database (FoodAnalyzer_init rows vec) t) ts)"
    using analyze_product_init [OF assms, of rows vec name] by blast
  let ?rep = "make_report name st"
  have each: "\<forall>i < length ts.
        if resolved_in_database (FoodAnalyzer_init rows vec) (ts ! i)
        then find_best_match (FoodAnalyzer_init rows vec) (ts ! i) =
               Inr (Some (ingredients ?rep ! i))
        else find_best_match (FoodAnalyzer_init rows vec) (ts ! i) = Inr None \<and>
             ingredients ?rep ! i = analyze_unknown_ingredient (ts ! i)"
    using token_result_cases [of rows vec] by (auto simp: st(2) make_report_fields)
  have split: "length (filter (resolved_in_database (FoodAnalyzer_init rows vec)) ts) +
        length (filter (\<lambda>t. \<not> resolved_in_database (FoodAnalyzer_init rows vec) t) ts) = length ts"
    by (rule sum_length_filter_compl)
  have m: "matched_ingredients ?rep =
       Some (length (filter (resolved_in_database (FoodAnalyzer_init rows vec)) ts))"
    by (simp add: make_report_fields st(3))
  have u: "unmatched_ingredients ?rep =
       Some (length (filter (\<lambda>t. \<not> resolved_in_database (FoodAnalyzer_init rows vec) t) ts))"
    by (simp add: make_report_fields st(4))
  have n: "total_ingredients ?rep = length (ingredients ?rep)" "length (ingredients ?rep) = length ts"
    by (simp_all add: make_report_fields st(2))
  have s: "the (matched_ingredients ?rep) + the (unmatched_ingredients ?rep) = total_ingredients ?rep"
    using split by (simp add: m u n)
  show ?thesis
    using st(1) m u s n each by blast
qed

theorem report_counts_add_up_witness:
  "extract_ingredients_list (clean_ingredient_text ''Salt, sugar, oats'') = [''salt'', ''sugar'', ''oats''] \<and>
   [''salt'', ''sugar'', ''oats''] \<noteq> [] \<and>
   (\<exists>rep. analyze_product (FoodAnalyzer_init catalog_small no_vector_model)
            ''Salt, sugar, oats'' ''Snack'' = Inr rep \<and>
          matched_ingredients rep = Some 2 \<and> unmatched_ingredients rep = Some 1 \<and>
          total_ingredients rep = 3 \<and> length (ingredients rep) = 3)"
proof -
  have ne: "[''salt'', ''sugar'', ''oats''] \<noteq> []" by simp
  from report_counts_add_up [OF tokens_salt_sugar_oats ne, of catalog_small no_vector_model "''Snack''"]
  show ?thesis
    by (auto simp: tokens_salt_sugar_oats small_resolved)
qed


subsection \<open>Confidence and method of exact matches and of the classifier\<close>

text \<open>
  Claim C5. A token whose lower-cased, trimmed form is a key of the variant index is
  resolved with confidence 1 and method \<open>exact_match\<close>. The classifier
  \<open>analyze_unknown_ingredient\<close> returns a result for every token (it is a total function
  and raises nowhere), and its confidence is never 1: a token that mentions one of the
  keywords gets method \<open>keyword_detection\<close> and a confidence between 0.7 and 0.8, every
  other token gets method \<open>not_found\<close> and confidence 0.
\<close>

theorem exact_and_classifier_confidence:
  "(\<forall>j. map_of (ingredient_map (FoodAnalyzer_init rows vec)) (strip (lower ing)) = Some j \<longrightarrow>
      (\<exists>r. find_best_match (FoodAnalyzer_init rows vec) ing = Inr (Some r) \<and>
           confidence r = 1 \<and> method_tag r = ''exact_match'')) \<and>
   confidence (analyze_unknown_ingredient ing) \<noteq> 1 \<and>
   (if mentions classifier_keywords (lower ing)
    then method_tag (analyze_unknown_ingredient ing) = ''keyword_detection'' \<and>
         7 / 10 \<le> confidence (analyze_unknown_ingredient ing) \<and>
         confidence (analyze_unknown_ingredient ing) \<le> 8 / 10
    else method_tag (analyze_unknown_ingredient ing) = ''not_found'' \<and>
         confidence (analyze_unknown_ingredient ing) = 0)"
proof -
  have m: "ingredient_map (FoodAnalyzer_init rows vec) = create_ingredient_variations rows"
    by (simp add: FoodAnalyzer_init_def)
  have exact: "\<forall>j. map_of (ingredient_map (FoodAnalyzer_init rows vec)) (strip (lower ing)) = Some j \<longrightarrow>
      (\<exists>r. find_best_match (FoodAnalyzer_init rows vec) ing = Inr (Some r) \<and>
           confidence r = 1 \<and> method_tag r = ''exact_match'')"
    unfolding m using find_best_match_exact [of rows ing _ vec]
    by (auto simp: row_result_fields)
  have unknown: "confidence (analyze_unknown_ingredient ing) \<noteq> 1"
    "if mentions classifier_keywords (lower ing)
     then method_tag (analyze_unknown_ingredient ing) = ''keyword_detection'' \<and>
          7 / 10 \<le> confidence (analyze_unknown_ingredient ing) \<and>
          confidence (analyze_unknown_ingredient ing) \<le> 8 / 10
     else method_tag (analyze_unknown_ingredient ing) = ''not_found'' \<and>
          confidence (analyze_unknown_ingredient ing) = 0"
    using classifier_cases [of ing] by auto
  from exact unknown show ?thesis by blast
qed

text \<open>
  \<open>Salt\<close> is an exact hit in the small catalog and no keyword of the classifier;
  \<open>Corn Syrup\<close> mentions the keyword \<open>syrup\<close>.
\<close>

theorem exact_and_classifier_confidence_witness:
  "map_of (ingredient_map (FoodAnalyzer_init catalog_small no_vector_model)) (strip (lower ''Salt'')) = Some 1 \<and>
   (\<exists>r. find_best_match (FoodAnalyzer_init catalog_small no_vector_model) ''Salt'' = Inr (Some r) \<and>
        confidence r = 1 \<and> method_tag r = ''exact_match'') \<and>
   \<not> mentions classifier_keywords (lower ''Salt'') \<and>
   method_tag (analyze_unknown_ingredient ''Salt'') = ''not_found'' \<and>
   confidence (analyze_unknown_ingredient ''Salt'') = 0 \<and>
   mentions classifier_keywords (lower ''Corn Syrup'') \<and>
   method_tag (analyze_unknown_ingredient ''Corn Syrup'') = ''keyword_detection'' \<and>
   7 / 10 \<le> confidence (analyze_unknown_ingredient ''Corn Syrup'') \<and>
   confidence (analyze_unknown_ingredient ''Corn Syrup'') \<le> 8 / 10"
proof -
  have a: "map_of (ingredient_map (FoodAnalyzer_init catalog_small no_vector_model)) (strip (lower ''Salt'')) = Some 1"
    by code_simp
  have b: "\<not> mentions classifier_keywords (lower ''Salt'')"
    by code_simp
  have c: "mentions classifier_keywords (lower ''Corn Syrup'')"
    by code_simp
  from exact_and_classifier_confidence [of catalog_small no_vector_model "''Salt''"]
       exact_and_classifier_confidence [of catalog_small no_vector_model "''Corn Syrup''"] a b c
  show ?thesis by simp
qed

subsection \<open>Flags\<close>

lemma flags_by_substring:
  assumes "extract_ingredients_list (clean_ingredient_text raw) \<noteq> []"
  shows "\<exists>rep. analyze_product (FoodAnalyzer_init rows vec) raw name = Inr rep \<and>
     (has_harmful (flags rep) \<longleftrightarrow> (\<exists>r \<in> set (ingredients rep). says_avoid r)) \<and>
     (has_caution (flags rep) \<longleftrightarrow>
        (\<exists>r \<in> set (ingredients rep). says_caution r \<and> \<not> says_avoid r)) \<and>
     ((\<forall>r \<in> set (ingredients rep). \<not> (says_avoid r \<and> says_caution r)) \<longrightarrow>
        (has_caution (flags rep) \<longleftrightarrow> (\<exists>r \<in> set (ingredients rep). says_caution r)))"
proof -
  let ?ts = "extract_ingredients_list (clean_ingredient_text raw)"
  obtain st where st:
    "analyze_product (FoodAnalyzer_init rows vec) raw name = Inr (make_report name st)"
    "ingredient_results st = map (token_result (FoodAnalyzer_init rows vec)) ?ts"
    "found_avoid st = (\<exists>t \<in> set ?ts. says_avoid (token_result (FoodAnalyzer_init rows vec) t))"
    "found_caution st =
       (\<exists>t \<in> set ?ts. says_caution (token_result (FoodAnalyzer_init rows vec) t) \<and>
                      \<not> says_avoid (token_result (FoodAnalyzer_init rows vec) t))"
    using analyze_product_init [OF refl assms, of rows vec name] by blast
  let ?rep = "make_report name st"
  have h: "has_harmful (flags ?rep) \<longleftrightarrow> (\<exists>r \<in> set (ingredients ?rep). says_avoid r)"
    by (simp add: make_report_fields st(2,3))
  have c: "has_caution (flags ?rep) \<longleftrightarrow>
        (\<exists>r \<in> set (ingredients ?rep). says_caution r \<and> \<not> says_avoid r)"
    by (simp add: make_report_fields st(2,4))
  have "(\<forall>r \<in> set (ingredients ?rep). \<not> (says_avoid r \<and> says_caution r)) \<longrightarrow>
        (has_caution (flags ?rep) \<longleftrightarrow> (\<exists>r \<in> set (ingredients ?rep). says_caution r))"
    unfolding c by blast
  with st(1) h c show ?thesis by blast
qed

lemma vocabulary_words:
  assumes "lower lab \<in> set [''healthy'', ''caution'', ''avoid'', ''unknown'']"
  shows "contains ''avoid'' (lower lab) \<longleftrightarrow> lower lab = ''avoid''"
    and "contains ''caution'' (lower lab) \<longleftrightarrow> lower lab = ''caution''"
proof -
  have "list_all (\<lambda>w. (contains ''avoid'' w \<longleftrightarrow> w = ''avoid'') \<and>
                      (contains ''caution'' w \<longleftrightarrow> w = ''caution''))
          [''healthy'', ''caution'', ''avoid'', ''unknown'']"
    by code_simp
  then show "contains ''avoid'' (lower lab) \<longleftrightarrow> lower lab = ''avoid''"
    and "contains ''caution'' (lower lab) \<longleftrightarrow> lower lab = ''caution''"
    using assms unfolding list_all_iff by blast+
qed

lemma classifier_label:
  "lower (label (analyze_unknown_ingredient t)) \<in> set [''healthy'', ''caution'', ''avoid'', ''unknown'']"
proof -
  have l: "lower ''Avoid'' = ''avoid''" "lower ''Caution'' = ''caution''"
    "lower ''Healthy'' = ''healthy''" "lower ''Unknown'' = ''unknown''"
    by code_simp+
  have "label (analyze_unknown_ingredient t) \<in> set [''Avoid'', ''Caution'', ''Healthy'', ''Unknown'']"
    unfolding analyze_unknown_ingredient_def Let_def unknown_result_def by simp
  then show ?thesis using l by auto
qed

lemma token_result_label:
  assumes "\<forall>row \<in> set rows.
             lower (Health_Label row) \<in> set [''healthy'', ''caution'', ''avoid'', ''unknown'']"
  shows "lower (label (token_result (FoodAnalyzer_init rows vec) t)) \<in>
           set [''healthy'', ''caution'', ''avoid'', ''unknown'']"
proof (cases "resolved_in_database (FoodAnalyzer_init rows vec) t")
  case True
  then have "find_best_match (FoodAnalyzer_init rows vec) t =
               Inr (Some (token_result (FoodAnalyzer_init rows vec) t))"
    using token_result_cases [of rows vec t] by simp
  then obtain j c m where j: "j < length rows"
      "token_result (FoodAnalyzer_init rows vec) t = row_result t (rows ! j) c m"
    using find_best_match_shape by blast
  have "rows ! j \<in> set rows" using j(1) by simp
  then show ?thesis using assms unfolding j(2) row_result_fields by blast
next
  case False
  then have "token_result (FoodAnalyzer_init rows vec) t = analyze_unknown_ingredient t"
    using token_result_cases [of rows vec t] by simp
  then show ?thesis using classifier_label [of t] by simp
qed

text \<open>
  Claim C6. The labels of the catalog are taken from the vocabulary Healthy, Caution,
  Avoid, Unknown, in any letter case; the classifier uses the same four labels. For a
  non-empty token list \<open>has_harmful\<close> is true exactly when the label of some result is
  Avoid, which is the same as the substring test \<open>'avoid' in label.lower()\<close> of the code,
  and \<open>has_caution\<close> is true exactly when the label of some result is Caution, which is
  the same as the test \<open>'caution' in label.lower()\<close>. Neither equivalence mentions the
  other flag, and both flags can be true in one report.
\<close>

theorem flags_follow_labels:
  assumes "\<forall>row \<in> set rows.
             lower (Health_Label row) \<in> set [''healthy'', ''caution'', ''avoid'', ''unknown'']"
    and "extract_ingredients_list (clean_ingredient_text raw) \<noteq> []"
  shows "\<exists>rep. analyze_product (FoodAnalyzer_init rows vec) raw name = Inr rep \<and>
     (has_harmful (flags rep) \<longleftrightarrow> (\<exists>r \<in> set (ingredients rep). lower (label r) = ''avoid'')) \<and>
     (has_harmful (flags rep) \<longleftrightarrow> (\<exists>r \<in> set (ingredients rep). says_avoid r)) \<and>
     (has_caution (flags rep) \<longleftrightarrow> (\<exists>r \<in> set (ingredients rep). lower (label r) = ''caution'')) \<and>
     (has_caution (flags rep) \<longleftrightarrow> (\<exists>r \<in> set (ingredients rep). says_caution r))"
proof -
  obtain rep where rep:
    "analyze_product (FoodAnalyzer_init rows vec) raw name = Inr rep"
    "has_harmful (flags rep) \<longleftrightarrow> (\<exists>r \<in> set (ingredients rep). says_avoid r)"
    "has_caution (flags rep) \<longleftrightarrow>
       (\<exists>r \<in> set (ingredients rep). says_caution r \<and> \<not> says_avoid r)"
    using flags_by_substring [OF assms(2), of rows vec name] by blast
  obtain st where st:
    "analyze_product (FoodAnalyzer_init rows vec) raw name = Inr (make_report name st)"
    "ingredient_results st =
       map (token_result (FoodAnalyzer_init rows vec))
         (extract_ingredients_list (clean_ingredient_text raw))"
    using analyze_product_init [OF refl assms(2), of rows vec name] by blast
  have "rep = make_report name st" using rep(1) st(1) by simp
  then have ing: "ingredients rep =
       map (token_result (FoodAnalyzer_init rows vec))
         (extract_ingredients_list (clean_ingredient_text raw))"
    by (simp add: make_report_fields st(2))
  have voc: "lower (label r) \<in> set [''healthy'', ''caution'', ''avoid'', ''unknown'']"
    if "r \<in> set (ingredients rep)" for r
    using that token_result_label [OF assms(1), of vec] unfolding ing by auto
  have a: "says_avoid r \<longleftrightarrow> lower (label r) = ''avoid''" if "r \<in> set (ingredients rep)" for r
    unfolding says_avoid_def using vocabulary_words(1) [OF voc [OF that]] .
  have c: "says_caution r \<longleftrightarrow> lower (label r) = ''caution''" if "r \<in> set (ingredients rep)" for r
    unfolding says_caution_def using vocabulary_words(2) [OF voc [OF that]] .
  have h1: "has_harmful (flags rep) \<longleftrightarrow> (\<exists>r \<in> set (ingredients rep). lower (label r) = ''avoid'')"
    unfolding rep(2) using a by blast
  have c1: "has_caution (flags rep) \<longleftrightarrow> (\<exists>r \<in> set (ingredients rep). lower (label r) = ''caution'')"
    unfolding rep(3) using a c by auto
  have c2: "has_caution (flags rep) \<longleftrightarrow> (\<exists>r \<in> set (ingredients rep). says_caution r)"
    unfolding c1 using c by blast
  from rep(1,2) h1 c1 c2 show ?thesis by blast
qed

text \<open>
  In the small catalog \<open>Salt\<close> is labelled Avoid and \<open>Sugars\<close> Caution: both flags hold.
\<close>

theorem flags_follow_labels_witness:
  "map (\<lambda>row. lower (Health_Label row)) catalog_small = [''caution'', ''avoid''] \<and>
   extract_ingredients_list (clean_ingredient_text ''Salt, sugar, oats'') \<noteq> [] \<and>
   (\<exists>rep. analyze_product (FoodAnalyzer_init catalog_small no_vector_model)
            ''Salt, sugar, oats'' ''Snack'' = Inr rep \<and>
          map label (ingredients rep) = [''Avoid'', ''Caution'', ''Healthy''] \<and>
          has_harmful (flags rep) \<and> has_caution (flags rep))"
proof -
  have labs: "map (\<lambda>row. lower (Health_Label row)) catalog_small = [''caution'', ''avoid'']"
    by code_simp
  have voc: "\<forall>row \<in> set catalog_small.
      lower (Health_Label row) \<in> set [''healthy'', ''caution'', ''avoid'', ''unknown'']"
  proof
    fix row assume "row \<in> set catalog_small"
    then have "lower (Health_Label row) \<in> set (map (\<lambda>row. lower (Health_Label row)) catalog_small)"
      by simp
    then show "lower (Health_Label row) \<in> set [''healthy'', ''caution'', ''avoid'', ''unknown'']"
      unfolding labs by auto
  qed
  have ne: "extract_ingredients_list (clean_ingredient_text ''Salt, sugar, oats'') \<noteq> []"
    by (simp add: tokens_salt_sugar_oats)
  have "case analyze_product (FoodAnalyzer_init catalog_small no_vector_model)
               ''Salt, sugar, oats'' ''Snack'' of
          Inl e \<Rightarrow> False
        | Inr rep \<Rightarrow> map label (ingredients rep) = [''Avoid'', ''Caution'', ''Healthy'']"
    by code_simp
  then obtain rep where rep:
    "analyze_product (FoodAnalyzer_init catalog_small no_vector_model)
       ''Salt, sugar, oats'' ''Snack'' = Inr rep"
    "map label (ingredients rep) = [''Avoid'', ''Caution'', ''Healthy'']"
    by (auto split: sum.splits)
  then obtain r1 r2 r3 where rs: "ingredients rep = [r1, r2, r3]"
     "label r1 = ''Avoid''" "label r2 = ''Caution''" "label r3 = ''Healthy''"
    by auto
  have l: "lower (label r1) = ''avoid''" "lower (label r2) = ''caution''"
    unfolding rs by code_simp+
  from flags_follow_labels [OF voc ne, of no_vector_model "''Snack''"] rep rs l labs ne
  show ?thesis by auto
qed

subsection \<open>Method tags\<close>

text \<open>
  Claim C9, as the code has it. The method tag of the result of a token is
  \<open>exact_match\<close>, \<open>keyword_detection\<close> or \<open>not_found\<close>, or it is one of \<open>fuzzy_match\<close>,
  \<open>tfidf_match\<close> and \<open>partial_match\<close> followed by a space and, in parentheses, the
  confidence of the result formatted with two decimals (the f-strings
  \<open>f'fuzzy_match ({best_fuzzy_score:.2f})'\<close> and its two siblings).
\<close>

theorem method_tag_shapes:
  "method_tag (token_result (FoodAnalyzer_init rows vec) t) = ''exact_match'' \<or>
   method_tag (token_result (FoodAnalyzer_init rows vec) t) =
     ''fuzzy_match ('' @ format_2f (confidence (token_result (FoodAnalyzer_init rows vec) t)) @ '')'' \<or>
   method_tag (token_result (FoodAnalyzer_init rows vec) t) =
     ''tfidf_match ('' @ format_2f (confidence (token_result (FoodAnalyzer_init rows vec) t)) @ '')'' \<or>
   method_tag (token_result (FoodAnalyzer_init rows vec) t) =
     ''partial_match ('' @ format_2f (confidence (token_result (FoodAnalyzer_init rows vec) t)) @ '')'' \<or>
   method_tag (token_result (FoodAnalyzer_init rows vec) t) = ''keyword_detection'' \<or>
   method_tag (token_result (FoodAnalyzer_init rows vec) t) = ''not_found''"
proof (cases "resolved_in_database (FoodAnalyzer_init rows vec) t")
  case True
  then have "find_best_match (FoodAnalyzer_init rows vec) t =
               Inr (Some (token_result (FoodAnalyzer_init rows vec) t))"
    using token_result_cases [of rows vec t] by simp
  then obtain j c m where r:
      "token_result (FoodAnalyzer_init rows vec) t = row_result t (rows ! j) c m"
      "method_shape c m"
    using find_best_match_shape by blast
  show ?thesis
    using r(2) unfolding r(1) row_result_fields method_shape_def by blast
next
  case False
  then have "token_result (FoodAnalyzer_init rows vec) t = analyze_unknown_ingredient t"
    using token_result_cases [of rows vec t] by simp
  then show ?thesis using classifier_cases [of t] by auto
qed

theorem method_tag_shapes_witness:
  "method_tag (token_result (FoodAnalyzer_init catalog_small no_vector_model) ''sugar'') =
     ''fuzzy_match ('' @ format_2f (confidence (token_result (FoodAnalyzer_init catalog_small no_vector_model) ''sugar'')) @ '')''"
proof -
  have "method_tag (token_result (FoodAnalyzer_init catalog_small no_vector_model) ''sugar'') = ''fuzzy_match (0.91)''"
    by (simp add: token_result_def small_sugar row_result_fields)
  with method_tag_shapes [of catalog_small no_vector_model "''sugar''"]
  show ?thesis by auto
qed

text \<open>
  The claim as stated fails for every fuzzy, TF-IDF and partial match: the token \<open>sugar\<close>
  matched with \<open>Sugars\<close> carries the tag \<open>fuzzy_match (0.91)\<close>, which is none of the six
  identifiers.
\<close>

theorem method_tag_carries_score:
  "find_best_match (FoodAnalyzer_init catalog_small no_vector_model) ''sugar'' =
     Inr (Some (token_result (FoodAnalyzer_init catalog_small no_vector_model) ''sugar'')) \<and>
   method_tag (token_result (FoodAnalyzer_init catalog_small no_vector_model) ''sugar'') =
     ''fuzzy_match (0.91)'' \<and>
   method_tag (token_result (FoodAnalyzer_init catalog_small no_vector_model) ''sugar'') \<notin>
     set [''exact_match'', ''fuzzy_match'', ''tfidf_match'', ''partial_match'',
          ''keyword_detection'', ''not_found'']"
  by (simp add: token_result_def small_sugar row_result_fields)


subsection \<open>Inputs without tokens\<close>

lemma isspace_not_upper: "isspace c \<Longrightarrow> c \<notin> set ''ABCDEFGHIJKLMNOPQRSTUVWXYZ''"
  by (auto simp: isspace_def)

lemma lower_char_other:
  assumes "c \<notin> set ''ABCDEFGHIJKLMNOPQRSTUVWXYZ''"
  shows "lower_char c = c"
proof -
  have "map_of (zip ''ABCDEFGHIJKLMNOPQRSTUVWXYZ'' ''abcdefghijklmnopqrstuvwxyz'') c = None"
    using assms by (subst map_of_zip_is_None) simp_all
  then show ?thesis by (simp only: lower_char_def option.case)
qed

lemma isspace_lower_char: "isspace c \<Longrightarrow> lower_char c = c"
  by (rule lower_char_other) (rule isspace_not_upper)

lemma blank_not_digit: "blank c \<Longrightarrow> \<not> is_digit c"
  by (auto simp: blank_def isspace_def is_digit_def)

lemma lower_blank: "list_all isspace s \<Longrightarrow> lower s = s"
  by (induction s) (auto simp: lower_def isspace_lower_char)

lemma starts_with_blank:
  "p \<noteq> [] \<Longrightarrow> \<not> blank (hd p) \<Longrightarrow> blank c \<Longrightarrow> \<not> starts_with p (c # cs)"
  by (cases p) auto

lemma re_sub_no_match:
  assumes "\<And>prev c cs. list_all blank (c # cs) \<Longrightarrow> m prev (c # cs) = None"
    and "list_all blank s"
  shows "re_sub m repl prev s = s"
  using assms(2)
proof (induction s arbitrary: prev)
  case Nil
  then show ?case by simp
next
  case (Cons c cs)
  have "m prev (c # cs) = None" using Cons.prems by (rule assms(1))
  then show ?case using Cons by simp
qed

lemma letter_not_blank:
  "c \<in> set ''abcdefghijklmnopqrstuvwxyz'' \<Longrightarrow> \<not> blank c"
  by (auto simp: blank_def isspace_def)

lemma m_allergen_blank: "blank c \<Longrightarrow> m_allergen prev (c # cs) = None"
  using starts_with_blank [of "''allergen''" c cs]
  by (simp add: m_allergen_def letter_not_blank)

lemma m_lit_rest_blank:
  "lit \<noteq> [] \<Longrightarrow> \<not> blank (hd lit) \<Longrightarrow> blank c \<Longrightarrow> m_lit_rest lit prev (c # cs) = None"
  using starts_with_blank [of lit c cs] by (simp add: m_lit_rest_def)

lemma m_lit_sep_rest_blank:
  "lit \<noteq> [] \<Longrightarrow> \<not> blank (hd lit) \<Longrightarrow> blank c \<Longrightarrow> m_lit_sep_rest lit prev (c # cs) = None"
  using starts_with_blank [of lit c cs] by (simp add: m_lit_sep_rest_def)

lemma m_lit_blank:
  "lit \<noteq> [] \<Longrightarrow> \<not> blank (hd lit) \<Longrightarrow> blank c \<Longrightarrow> m_lit lit prev (c # cs) = None"
  using starts_with_blank [of lit c cs] by (simp add: m_lit_def)

lemma m_words_blank:
  assumes "list_all (\<lambda>w. w \<noteq> [] \<and> \<not> blank (hd w)) alts" and "blank c"
  shows "m_words alts prev (c # cs) = None"
proof -
  have "find (\<lambda>w. if starts_with w (c # cs)
                  then word_boundary prev (c # cs) \<and>
                       word_boundary (Some (last w)) (drop (length w) (c # cs))
                  else False) alts = None"
    using assms starts_with_blank [of _ c cs]
    by (auto simp: find_None_iff list_all_iff)
  then show ?thesis by (simp add: m_words_def)
qed

lemma replace_codes_blank:
  assumes "list_all (\<lambda>e. fst e \<noteq> [] \<and> \<not> blank (hd (fst e))) table" and "list_all blank s"
  shows "replace_codes table s = s"
proof -
  have "foldl (\<lambda>t (code, name). re_sub (m_words [code]) name None t) s table = s"
    using assms
  proof (induction table)
    case Nil
    then show ?case by simp
  next
    case (Cons e table)
    obtain code name where e: "e = (code, name)" by (cases e)
    have "re_sub (m_words [code]) name None s = s"
      using Cons.prems e by (intro re_sub_no_match m_words_blank) auto
    then show ?case using Cons e by simp
  qed
  then show ?thesis by (simp add: replace_codes_def)
qed

lemma dropWhile_isspace_blank:
  "list_all blank s \<Longrightarrow> dropWhile isspace s = [] \<or> hd (dropWhile isspace s) = CHR '',''"
  by (induction s) (auto simp: blank_def)

lemma m_brackets_blank:
  assumes "list_all blank s"
  shows "m_brackets prev s = None"
proof (cases "dropWhile isspace s")
  case Nil
  show ?thesis unfolding m_brackets_def Nil by simp
next
  case (Cons b rest)
  then have "b = CHR '',''" using dropWhile_isspace_blank [OF assms] by simp
  then show ?thesis using Cons by (simp add: m_brackets_def is_open_bracket_def)
qed

lemma m_as_role_blank:
  assumes "list_all blank s"
  shows "m_as_role prev s = None"
proof -
  have "\<not> starts_with ''as'' (dropWhile isspace s)"
  proof (cases "dropWhile isspace s")
    case Nil
    show ?thesis unfolding Nil by simp
  next
    case (Cons b rest)
    then have "b = CHR '',''" using dropWhile_isspace_blank [OF assms] by simp
    then show ?thesis unfolding Cons by simp
  qed
  then show ?thesis by (simp add: m_as_role_def Let_def)
qed

lemma m_enumeration_blank: "blank c \<Longrightarrow> m_enumeration prev (c # cs) = None"
  by (simp add: m_enumeration_def Let_def blank_not_digit)

lemma m_header_blank: "blank c \<Longrightarrow> m_header prev (c # cs) = None"
proof -
  assume c: "blank c"
  have "m_colon_after w (c # cs) = None" if "w \<in> set header_words" for w
    using that starts_with_blank [of w c cs] c
    by (auto simp: m_colon_after_def header_words_def letter_not_blank)
  then have "find (\<lambda>w. m_colon_after w (c # cs) \<noteq> None) header_words = None"
    by (simp add: find_None_iff)
  then show ?thesis by (simp add: m_header_def)
qed

lemma re_sub_separator_blank:
  "list_all blank s \<Longrightarrow> list_all blank (re_sub m_separator '','' prev s)"
  by (induction s arbitrary: prev) (auto simp: m_separator_def blank_def)

lemma isspace_blank: "list_all isspace s \<Longrightarrow> list_all blank s"
  by (induction s) (auto simp: blank_def)

lemma table_codes_not_blank:
  "list_all (\<lambda>e. fst e \<noteq> [] \<and> \<not> blank (hd (fst e))) E_NUMBER_MAP"
  "list_all (\<lambda>e. fst e \<noteq> [] \<and> \<not> blank (hd (fst e))) INDIAN_INGREDIENT_MAP"
  by (simp_all add: E_NUMBER_MAP_def INDIAN_INGREDIENT_MAP_def letter_not_blank)

lemma clean_blank:
  assumes "list_all isspace raw"
  shows "list_all blank (clean_ingredient_text raw)"
proof -
  have b: "list_all blank raw" using assms by (rule isspace_blank)
  have 1: "re_sub m_allergen [] None raw = raw"
    using b by (intro re_sub_no_match m_allergen_blank) simp_all
  have 2: "re_sub (m_lit_rest ''may contain traces of'') [] None raw = raw"
    using b by (intro re_sub_no_match m_lit_rest_blank) (simp_all add: letter_not_blank)
  have 3: "re_sub (m_lit_sep_rest ''storage instructions'') [] None raw = raw"
    using b by (intro re_sub_no_match m_lit_sep_rest_blank) (simp_all add: letter_not_blank)
  have 4: "re_sub (m_lit_sep_rest ''best before'') [] None raw = raw"
    using b by (intro re_sub_no_match m_lit_sep_rest_blank) (simp_all add: letter_not_blank)
  have 5: "re_sub (m_lit ''contains added permitted'') [] None raw = raw"
    using b by (intro re_sub_no_match m_lit_blank) (simp_all add: letter_not_blank)
  have 6: "replace_codes E_NUMBER_MAP raw = raw" "replace_codes INDIAN_INGREDIENT_MAP raw = raw"
    using b table_codes_not_blank by (simp_all add: replace_codes_blank)
  have 7: "re_sub m_brackets [] None raw = raw"
    using b by (intro re_sub_no_match m_brackets_blank) simp_all
  have 8: "re_sub m_as_role [] None raw = raw"
    using b by (intro re_sub_no_match m_as_role_blank) simp_all
  let ?t = "re_sub m_separator '','' None raw"
  have t: "list_all blank ?t" using b by (rule re_sub_separator_blank)
  have 9: "re_sub m_enumeration [] None ?t = ?t"
    using t by (intro re_sub_no_match m_enumeration_blank) simp_all
  have 10: "re_sub m_header '','' None ?t = ?t"
    using t by (intro re_sub_no_match m_header_blank) simp_all
  have "clean_ingredient_text raw = ?t"
    by (simp add: clean_ingredient_text_def Let_def lower_blank [OF assms] 1 2 3 4 5 6 7 8 9 10)
  then show ?thesis using t by simp
qed

lemma split_acc_blank:
  "list_all isspace (rev acc) \<Longrightarrow> list_all blank s \<Longrightarrow>
   list_all (list_all isspace) (split_acc CHR '','' acc s)"
  by (induction s arbitrary: acc) (auto simp: blank_def)

lemma strip_blank: "list_all isspace p \<Longrightarrow> strip p = []"
proof -
  assume "list_all isspace p"
  then have d: "dropWhile isspace p = []" by (induction p) auto
  show ?thesis unfolding strip_def d by simp
qed

lemma extract_blank:
  assumes "list_all blank t"
  shows "extract_ingredients_list t = []"
proof -
  have "list_all (list_all isspace) (split_on CHR '','' t)"
    using split_acc_blank [of "[]" t] assms by (simp add: split_on_def)
  then have "filter (\<lambda>i. i \<noteq> []) (map strip (split_on CHR '','' t)) = []"
    by (auto simp: filter_empty_conv list_all_iff strip_blank)
  then show ?thesis by (simp add: extract_ingredients_list_def)
qed

lemma whitespace_no_tokens:
  "list_all isspace raw \<Longrightarrow> extract_ingredients_list (clean_ingredient_text raw) = []"
  by (rule extract_blank) (rule clean_blank)

text \<open>
  Claim C4, as the code has it. When normalization and tokenization yield no token,
  \<open>analyze_product\<close> raises nothing and returns a report with \<open>final_score\<close> 0, the
  recommendation \<open>Unable to analyze - No ingredients detected\<close>, \<open>total_ingredients\<close> 0, an
  empty \<open>ingredients\<close> list, both flags false, the product name it was given, and an
  \<open>error\<close> entry \<open>No ingredients found in text\<close>. This holds for every analyzer. Every
  input that consists of whitespace only, the empty string included, yields no token.
\<close>

theorem empty_token_list_report:
  "(extract_ingredients_list (clean_ingredient_text raw) = [] \<longrightarrow>
      (\<exists>rep. analyze_product self raw name = Inr rep \<and>
             final_score rep = 0 \<and>
             recommendation rep = ''Unable to analyze - No ingredients detected'' \<and>
             total_ingredients rep = 0 \<and>
             ingredients rep = [] \<and>
             \<not> has_harmful (flags rep) \<and> \<not> has_caution (flags rep) \<and>
             product_name rep = name \<and>
             error rep = Some ''No ingredients found in text'')) \<and>
   (list_all isspace raw \<longrightarrow> extract_ingredients_list (clean_ingredient_text raw) = [])"
  using whitespace_no_tokens [of raw]
  by (simp add: analyze_product_def analyze_tokens_def empty_report_def)

theorem empty_token_list_report_witness:
  "list_all isspace ''   '' \<and>
   extract_ingredients_list (clean_ingredient_text ''   '') = [] \<and>
   (\<exists>rep. analyze_product (FoodAnalyzer_init catalog_small no_vector_model) ''   '' ''Snack'' =
            Inr rep \<and>
          final_score rep = 0 \<and>
          recommendation rep = ''Unable to analyze - No ingredients detected'' \<and>
          total_ingredients rep = 0 \<and>
          ingredients rep = [] \<and>
          \<not> has_harmful (flags rep) \<and> \<not> has_caution (flags rep) \<and>
          product_name rep = ''Snack'' \<and>
          error rep = Some ''No ingredients found in text'')"
proof -
  have ws: "list_all isspace ''   ''" by (simp add: isspace_def)
  from empty_token_list_report
         [of "''   ''" "FoodAnalyzer_init catalog_small no_vector_model" "''Snack''"] ws
  show ?thesis by simp
qed

text \<open>
  The claim as stated fails at the empty string: the recommendation is not the string of
  the claim (which has an em dash, here in UTF-8, and a lower-case \<open>no\<close>), the report
  carries an \<open>error\<close> entry, and the dict written under \<open>if not ingredients_list\<close> has no
  \<open>matched_ingredients\<close> or \<open>unmatched_ingredients\<close> entry, so these counts are not zero
  but absent.
\<close>

theorem empty_report_differs:
  "extract_ingredients_list (clean_ingredient_text []) = [] \<and>
   (\<exists>rep. analyze_product (FoodAnalyzer_init catalog_small no_vector_model) [] ''Snack'' = Inr rep \<and>
          recommendation rep \<noteq>
            ''Unable to analyze '' @ [CHR 0xE2, CHR 0x80, CHR 0x94] @ '' no ingredients detected'' \<and>
          matched_ingredients rep \<noteq> Some 0 \<and> unmatched_ingredients rep \<noteq> Some 0 \<and>
          error rep = Some ''No ingredients found in text'')"
proof -
  have t: "extract_ingredients_list (clean_ingredient_text []) = []"
    by (rule whitespace_no_tokens) simp
  then show ?thesis
    by (simp add: analyze_product_def analyze_tokens_def empty_report_def)
qed

subsection \<open>Additive codes in the token list\<close>




subsection \<open>The variant index\<close>

lemma create_snoc:
  "create_ingredient_variations (rows @ [r]) =
     register_row (create_ingredient_variations rows) (length rows, r)"
  by (simp add: create_ingredient_variations_def enumerate_append_eq)

lemma map_of_register_row:
  "map_of (register_row m (i, r)) k =
     (if k = Ingredient_LC r then Some i
      else if k = clean_name_of (Ingredient_LC r) \<and> k \<noteq> [] \<and> map_of m k = None then Some i
      else map_of m k)"
  by (auto simp: register_row_def Let_def update_conv')

lemma index_sound:
  "map_of (create_ingredient_variations rows) k = Some j \<Longrightarrow>
   j < length rows \<and>
   (Ingredient_LC (rows ! j) = k \<or> clean_name_of (Ingredient_LC (rows ! j)) = k \<and> k \<noteq> [])"
proof (induction rows arbitrary: j rule: rev_induct)
  case Nil
  then show ?case by (simp add: create_ingredient_variations_def)
next
  case (snoc r rows)
  show ?case
  proof (cases "map_of (create_ingredient_variations (rows @ [r])) k =
                map_of (create_ingredient_variations rows) k")
    case True
    then have "j < length rows \<and>
       (Ingredient_LC (rows ! j) = k \<or> clean_name_of (Ingredient_LC (rows ! j)) = k \<and> k \<noteq> [])"
      using snoc by simp
    then show ?thesis by (simp add: nth_append)
  next
    case False
    then have "j = length rows \<and>
       (k = Ingredient_LC r \<or> k = clean_name_of (Ingredient_LC r) \<and> k \<noteq> [])"
      using snoc.prems by (auto simp: create_snoc map_of_register_row split: if_splits)
    then show ?thesis by auto
  qed
qed

lemma exact_name_last:
  assumes "i < length rows"
    and "\<forall>j. i < j \<and> j < length rows \<longrightarrow> Ingredient_LC (rows ! j) \<noteq> Ingredient_LC (rows ! i)"
  shows "map_of (create_ingredient_variations rows) (Ingredient_LC (rows ! i)) = Some i"
  using assms
proof (induction rows rule: rev_induct)
  case Nil
  then show ?case by simp
next
  case (snoc r rows)
  show ?case
  proof (cases "i = length rows")
    case True
    then show ?thesis by (simp add: create_snoc map_of_register_row)
  next
    case False
    then have i: "i < length rows" using snoc.prems(1) by simp
    have later: "\<forall>j. i < j \<and> j < length rows \<longrightarrow>
        Ingredient_LC (rows ! j) \<noteq> Ingredient_LC (rows ! i)"
    proof (intro allI impI)
      fix j assume j: "i < j \<and> j < length rows"
      then have "Ingredient_LC ((rows @ [r]) ! j) \<noteq> Ingredient_LC ((rows @ [r]) ! i)"
        using snoc.prems(2) by simp
      then show "Ingredient_LC (rows ! j) \<noteq> Ingredient_LC (rows ! i)"
        using j i by (simp add: nth_append)
    qed
    have r: "Ingredient_LC r \<noteq> Ingredient_LC (rows ! i)"
      using snoc.prems(2) [rule_format, of "length rows"] i by (simp add: nth_append)
    have "map_of (create_ingredient_variations rows) (Ingredient_LC (rows ! i)) = Some i"
      using snoc.IH [OF i later] .
    then show ?thesis
      using r i by (simp add: create_snoc map_of_register_row nth_append)
  qed
qed

lemma variant_first:
  assumes "i < length rows"
    and "c = clean_name_of (Ingredient_LC (rows ! i))" and "c \<noteq> []"
    and "\<forall>j < length rows. Ingredient_LC (rows ! j) \<noteq> c"
    and "\<forall>j < i. clean_name_of (Ingredient_LC (rows ! j)) \<noteq> c"
  shows "map_of (create_ingredient_variations rows) c = Some i"
  using assms
proof (induction rows rule: rev_induct)
  case Nil
  then show ?case by simp
next
  case (snoc r rows)
  have r: "Ingredient_LC r \<noteq> c"
    using snoc.prems(4) [rule_format, of "length rows"] by simp
  have names: "\<forall>j < length rows. Ingredient_LC (rows ! j) \<noteq> c"
  proof (intro allI impI)
    fix j assume "j < length rows"
    then show "Ingredient_LC (rows ! j) \<noteq> c"
      using snoc.prems(4) [rule_format, of j] by (simp add: nth_append)
  qed
  show ?case
  proof (cases "i = length rows")
    case True
    have "map_of (create_ingredient_variations rows) c = None"
    proof (rule ccontr)
      assume "map_of (create_ingredient_variations rows) c \<noteq> None"
      then obtain j where j: "map_of (create_ingredient_variations rows) c = Some j" by auto
      from index_sound [OF this] have jl: "j < length rows"
        and "Ingredient_LC (rows ! j) = c \<or> clean_name_of (Ingredient_LC (rows ! j)) = c"
        by auto
      then have "clean_name_of (Ingredient_LC (rows ! j)) = c" using names by auto
      moreover have "clean_name_of (Ingredient_LC ((rows @ [r]) ! j)) \<noteq> c"
        using snoc.prems(5) [rule_format, of j] jl True by simp
      ultimately show False using jl by (simp add: nth_append)
    qed
    then show ?thesis
      using True r snoc.prems(2,3) by (simp add: create_snoc map_of_register_row)
  next
    case False
    then have i: "i < length rows" using snoc.prems(1) by simp
    have c: "c = clean_name_of (Ingredient_LC (rows ! i))"
      using snoc.prems(2) i by (simp add: nth_append)
    have earlier: "\<forall>j < i. clean_name_of (Ingredient_LC (rows ! j)) \<noteq> c"
    proof (intro allI impI)
      fix j assume "j < i"
      then show "clean_name_of (Ingredient_LC (rows ! j)) \<noteq> c"
        using snoc.prems(5) [rule_format, of j] i by (simp add: nth_append)
    qed
    have "map_of (create_ingredient_variations rows) c = Some i"
      using snoc.IH [OF i c snoc.prems(3) names earlier] .
    then show ?thesis
      using r by (simp add: create_snoc map_of_register_row)
  qed
qed

lemma exact_name_is_key:
  assumes "i < length rows"
  shows "\<exists>j. i \<le> j \<and> map_of (create_ingredient_variations rows) (Ingredient_LC (rows ! i)) = Some j \<and>
             Ingredient_LC (rows ! j) = Ingredient_LC (rows ! i)"
proof -
  let ?S = "{j. j < length rows \<and> Ingredient_LC (rows ! j) = Ingredient_LC (rows ! i)}"
  have fin: "finite ?S" by simp
  have ne: "?S \<noteq> {}" using assms by auto
  let ?j = "Max ?S"
  have mem: "?j \<in> ?S" using Max_in [OF fin ne] .
  have ge: "i \<le> ?j" using assms by (intro Max_ge [OF fin]) simp
  have last: "\<forall>j. ?j < j \<and> j < length rows \<longrightarrow>
      Ingredient_LC (rows ! j) \<noteq> Ingredient_LC (rows ! ?j)"
  proof (intro allI impI notI)
    fix j assume j: "?j < j \<and> j < length rows"
      and eq: "Ingredient_LC (rows ! j) = Ingredient_LC (rows ! ?j)"
    then have "j \<in> ?S" using mem by simp
    then have "j \<le> ?j" by (rule Max_ge [OF fin])
    with j show False by simp
  qed
  have "map_of (create_ingredient_variations rows) (Ingredient_LC (rows ! ?j)) = Some ?j"
    using exact_name_last [OF _ last] mem by simp
  then show ?thesis using mem ge by auto
qed

text \<open>
  Claim C7, as the code has it. After \<open>create_ingredient_variations\<close>:
  \<^item> the exact lower-cased, trimmed name of every entry is a key, and it points to the last
    entry with that exact name, so to the entry itself when no later entry has the same
    name (the assignment \<open>self.ingredient_map[ingredient] = idx\<close> is unconditional);
  \<^item> the filler-stripped form of an entry, when it is not empty, is the exact name of no
    entry and is the filler-stripped form of no earlier entry, points to that entry: among
    entries with the same filler-stripped form the first loaded one holds the key;
  \<^item> every key points to an entry of which it is the exact name or the non-empty
    filler-stripped form.
\<close>

theorem variant_index_contents:
  "(\<forall>i < length rows. \<exists>j. i \<le> j \<and>
       map_of (ingredient_map (FoodAnalyzer_init rows vec)) (Ingredient_LC (rows ! i)) = Some j \<and>
       Ingredient_LC (rows ! j) = Ingredient_LC (rows ! i)) \<and>
   (\<forall>i < length rows.
       (\<forall>j. i < j \<and> j < length rows \<longrightarrow> Ingredient_LC (rows ! j) \<noteq> Ingredient_LC (rows ! i)) \<longrightarrow>
       map_of (ingredient_map (FoodAnalyzer_init rows vec)) (Ingredient_LC (rows ! i)) = Some i) \<and>
   (\<forall>i < length rows.
       clean_name_of (Ingredient_LC (rows ! i)) \<noteq> [] \<and>
       (\<forall>j < length rows. Ingredient_LC (rows ! j) \<noteq> clean_name_of (Ingredient_LC (rows ! i))) \<and>
       (\<forall>j < i. clean_name_of (Ingredient_LC (rows ! j)) \<noteq> clean_name_of (Ingredient_LC (rows ! i))) \<longrightarrow>
       map_of (ingredient_map (FoodAnalyzer_init rows vec))
         (clean_name_of (Ingredient_LC (rows ! i))) = Some i) \<and>
   (\<forall>k j. map_of (ingredient_map (FoodAnalyzer_init rows vec)) k = Some j \<longrightarrow>
       j < length rows \<and>
       (Ingredient_LC (rows ! j) = k \<or> clean_name_of (Ingredient_LC (rows ! j)) = k \<and> k \<noteq> []))"
proof -
  have m: "ingredient_map (FoodAnalyzer_init rows vec) = create_ingredient_variations rows"
    by (simp add: FoodAnalyzer_init_def)
  have 1: "\<forall>i < length rows. \<exists>j. i \<le> j \<and>
       map_of (create_ingredient_variations rows) (Ingredient_LC (rows ! i)) = Some j \<and>
       Ingredient_LC (rows ! j) = Ingredient_LC (rows ! i)"
    using exact_name_is_key by blast
  have 2: "\<forall>i < length rows.
       (\<forall>j. i < j \<and> j < length rows \<longrightarrow> Ingredient_LC (rows ! j) \<noteq> Ingredient_LC (rows ! i)) \<longrightarrow>
       map_of (create_ingredient_variations rows) (Ingredient_LC (rows ! i)) = Some i"
    using exact_name_last by blast
  have 3: "\<forall>i < length rows.
       clean_name_of (Ingredient_LC (rows ! i)) \<noteq> [] \<and>
       (\<forall>j < length rows. Ingredient_LC (rows ! j) \<noteq> clean_name_of (Ingredient_LC (rows ! i))) \<and>
       (\<forall>j < i. clean_name_of (Ingredient_LC (rows ! j)) \<noteq> clean_name_of (Ingredient_LC (rows ! i))) \<longrightarrow>
       map_of (create_ingredient_variations rows)
         (clean_name_of (Ingredient_LC (rows ! i))) = Some i"
    using variant_first [OF _ refl] by blast
  have 4: "\<forall>k j. map_of (create_ingredient_variations rows) k = Some j \<longrightarrow>
       j < length rows \<and>
       (Ingredient_LC (rows ! j) = k \<or> clean_name_of (Ingredient_LC (rows ! j)) = k \<and> k \<noteq> [])"
    using index_sound by blast
  show ?thesis unfolding m using 1 2 3 4 by blast
qed

text \<open>
  \<open>Cocoa Powder\<close> and \<open>Cocoa Extract\<close> both reduce to \<open>cocoa\<close>, which is no exact name:
  the key \<open>cocoa\<close> points to the first of them, and each exact name to its own entry.
\<close>

theorem variant_index_contents_witness:
  "map Ingredient_LC catalog_variants = [''cocoa powder'', ''cocoa extract''] \<and>
   map (\<lambda>r. clean_name_of (Ingredient_LC r)) catalog_variants = [''cocoa'', ''cocoa''] \<and>
   map_of (ingredient_map (FoodAnalyzer_init catalog_variants no_vector_model)) ''cocoa'' = Some 0 \<and>
   map_of (ingredient_map (FoodAnalyzer_init catalog_variants no_vector_model)) ''cocoa powder'' = Some 0 \<and>
   map_of (ingredient_map (FoodAnalyzer_init catalog_variants no_vector_model)) ''cocoa extract'' = Some 1"
proof -
  have lc: "map Ingredient_LC catalog_variants = [''cocoa powder'', ''cocoa extract'']"
    by code_simp
  have v: "map (\<lambda>r. clean_name_of (Ingredient_LC r)) catalog_variants = [''cocoa'', ''cocoa'']"
    by code_simp
  have len: "length catalog_variants = 2" by (simp add: catalog_variants_def)
  have lc0: "Ingredient_LC (catalog_variants ! 0) = ''cocoa powder''"
    and lc1: "Ingredient_LC (catalog_variants ! 1) = ''cocoa extract''"
    using nth_map [of 0 catalog_variants Ingredient_LC] nth_map [of 1 catalog_variants Ingredient_LC]
    by (simp_all add: lc len)
  have v0: "clean_name_of (Ingredient_LC (catalog_variants ! 0)) = ''cocoa''"
    using nth_map [of 0 catalog_variants "\<lambda>r. clean_name_of (Ingredient_LC r)"]
    by (simp add: v len)
  have names: "\<forall>j < length catalog_variants. Ingredient_LC (catalog_variants ! j) \<noteq> ''cocoa''"
    using lc0 lc1 by (auto simp: len less_Suc_eq numeral_2_eq_2)
  have last0: "\<forall>j. 0 < j \<and> j < length catalog_variants \<longrightarrow>
      Ingredient_LC (catalog_variants ! j) \<noteq> Ingredient_LC (catalog_variants ! 0)"
    using lc0 lc1 by (auto simp: len less_Suc_eq numeral_2_eq_2)
  have last1: "\<forall>j. 1 < j \<and> j < length catalog_variants \<longrightarrow>
      Ingredient_LC (catalog_variants ! j) \<noteq> Ingredient_LC (catalog_variants ! 1)"
    by (auto simp: len)
  note t = variant_index_contents [of catalog_variants no_vector_model]
  have a: "map_of (ingredient_map (FoodAnalyzer_init catalog_variants no_vector_model)) ''cocoa'' = Some 0"
    using t [THEN conjunct2, THEN conjunct2, THEN conjunct1, rule_format, of 0] names
    by (simp add: v0 len)
  have b: "map_of (ingredient_map (FoodAnalyzer_init catalog_variants no_vector_model)) ''cocoa powder'' = Some 0"
    using t [THEN conjunct2, THEN conjunct1, rule_format, of 0] last0
    by (simp add: lc0 len)
  have c: "map_of (ingredient_map (FoodAnalyzer_init catalog_variants no_vector_model)) ''cocoa extract'' = Some 1"
    using t [THEN conjunct2, THEN conjunct1, rule_format, of 1] last1
    by (simp add: lc1 [unfolded One_nat_def] len)
  from lc v a b c show ?thesis by blast
qed

text \<open>
  The claim as stated fails in two ways. With a third entry \<open>Cocoa\<close> the key \<open>cocoa\<close>, held
  by the first-loaded \<open>Cocoa Powder\<close> after the collision with \<open>Cocoa Extract\<close>, is
  overwritten by the exact name of the third entry. And of two entries with the same exact
  name, \<open>Sugar\<close> and \<open>sugar\<close> with a trailing space, the key points to the second: the
  exact name of the first entry does not point to it.
\<close>

theorem variant_key_overwritten:
  "map (\<lambda>r. clean_name_of (Ingredient_LC r)) catalog_cocoa = [''cocoa'', ''cocoa'', ''cocoa''] \<and>
   create_ingredient_variations (take 2 catalog_cocoa) =
     [(''cocoa powder'', 0), (''cocoa'', 0), (''cocoa extract'', 1)] \<and>
   ingredient_map (FoodAnalyzer_init catalog_cocoa no_vector_model) =
     [(''cocoa powder'', 0), (''cocoa'', 2), (''cocoa extract'', 1)] \<and>
   map Ingredient_LC catalog_duplicate = [''sugar'', ''sugar''] \<and>
   ingredient_map (FoodAnalyzer_init catalog_duplicate no_vector_model) = [(''sugar'', 1)]"
proof -
  have a: "map (\<lambda>r. clean_name_of (Ingredient_LC r)) catalog_cocoa = [''cocoa'', ''cocoa'', ''cocoa'']"
    by code_simp
  have b: "create_ingredient_variations (take 2 catalog_cocoa) =
     [(''cocoa powder'', 0), (''cocoa'', 0), (''cocoa extract'', 1)]"
    by code_simp
  have c: "ingredient_map (FoodAnalyzer_init catalog_cocoa no_vector_model) =
     [(''cocoa powder'', 0), (''cocoa'', 2), (''cocoa extract'', 1)]"
    by code_simp
  have d: "map Ingredient_LC catalog_duplicate = [''sugar'', ''sugar'']"
    by code_simp
  have e: "ingredient_map (FoodAnalyzer_init catalog_duplicate no_vector_model) = [(''sugar'', 1)]"
    by code_simp
  from a b c d e show ?thesis by blast
qed

end
